theory Spec2Isabelle
  imports Complex_Main "HOL-Library.Word" "HOL-Library.Log_Nat"
begin

text \<open>
  A shallow embedding of the Hindsight memory plugin of Moltbot
  (\<^verbatim>\<open>src/extensions/hindsight-memory/index.ts\<close>): the client of the remote memory
  service, the tools \<open>hindsight_recall\<close> and \<open>hindsight_retain\<close>, and the handlers of
  the lifecycle events \<open>before_agent_start\<close> and \<open>agent_end\<close>. The network, the clock
  and the logger are explicit: a handler takes the environment and the state of the host
  and returns its result with the new state. A thrown error is a value \<open>Inl err\<close>:
  a client call and a handler, which are \<open>async\<close> functions, end with \<open>Inr v\<close> when
  the promise is fulfilled with \<open>v\<close> and with \<open>Inl err\<close> when it is rejected with
  \<open>err\<close>.
\<close>

section \<open>JavaScript values\<close>

subsection \<open>Strings\<close>

text \<open>
  A JavaScript string is a sequence of UTF-16 code units: \<open>length\<close>, \<open>slice\<close> and
  \<open>trim\<close> all count code units. String literals of the source are written
  \<open>lit ''...''\<close>.
\<close>

type_synonym jchar = "16 word"
type_synonym jstring = "jchar list"

definition lit :: "string \<Rightarrow> jstring" where
  "lit s = map (\<lambda>c. word_of_nat (of_char c)) s"

definition dquote :: jstring where
  "dquote = [0x22]"

text \<open>
  \<open>String.prototype.trim\<close> strips WhiteSpace and LineTerminator code points: TAB, VT,
  FF, SP, NBSP, ZWNBSP, the category Zs, and LF, CR, LS, PS. All of them are single code
  units.
\<close>

definition is_space :: "jchar \<Rightarrow> bool" where
  "is_space c \<longleftrightarrow>
     c \<in> {0x9, 0xA, 0xB, 0xC, 0xD, 0x20, 0xA0, 0x1680, 0x2028, 0x2029,
          0x202F, 0x205F, 0x3000, 0xFEFF} \<or> (0x2000 \<le> c \<and> c \<le> 0x200A)"

definition trim :: "jstring \<Rightarrow> jstring" where
  "trim s = rev (dropWhile is_space (rev (dropWhile is_space s)))"

text \<open>\<open>Array.prototype.join\<close> on an array of strings.\<close>

fun join :: "jstring \<Rightarrow> jstring list \<Rightarrow> jstring" where
  "join sep [] = []"
| "join sep [x] = x"
| "join sep (x # y # ys) = x @ sep @ join sep (y # ys)"

text \<open>The decimal digits of a non-negative integer, as a template literal prints it.\<close>

fun digits :: "nat \<Rightarrow> jstring" where
  "digits n = (if n < 10 then [word_of_nat (48 + n)]
               else digits (n div 10) @ [word_of_nat (48 + n mod 10)])"

declare digits.simps [simp del]

subsection \<open>Numbers\<close>

text \<open>
  A JavaScript number is an IEEE 754 double. A finite double is kept as its sign
  (\<open>True\<close> for negative) and the exact rational value of its magnitude, so that both
  zeros exist. \<open>scale2 x q\<close> is \<open>x\<close> times the \<open>q\<close>-th power of two, \<open>ilog2 x\<close> the
  binary exponent of a positive \<open>x\<close>, and \<open>fl\<close> rounds a non-negative rational to the
  nearest double, ties to even, with gradual underflow; \<open>None\<close> is overflow.
\<close>

datatype number = Fin bool rat | Infinity bool | NaN

definition scale2 :: "rat \<Rightarrow> int \<Rightarrow> rat" where
  "scale2 x q = (if 0 \<le> q then x * 2 ^ nat q else x / 2 ^ nat (- q))"

definition ilog2 :: "rat \<Rightarrow> int" where
  "ilog2 x = (let (p, q) = quotient_of x; d = bitlen p - bitlen q
              in if scale2 1 d \<le> x then d else d - 1)"

definition round_half_even :: "rat \<Rightarrow> int" where
  "round_half_even y =
     (let n = \<lfloor>y\<rfloor>; f = y - of_int n
      in if f < 1/2 then n else if 1/2 < f then n + 1 else if even n then n else n + 1)"

text \<open>The power \<open>2^1024\<close>, from which on a rounded magnitude overflows.\<close>

definition double_limit :: rat where
  "double_limit = 179769313486231590772930519078902473361797697894230657273430081157732675805500963132708477322407536021120113879871393357658789768814416622492847430639474124377767893424865485276302219601246094119453082952085005768838150682342462881473913110540827237163350510684586298239947245938479716304835356329624224137216"

definition fl :: "rat \<Rightarrow> rat option" where
  "fl x = (if x = 0 then Some 0
           else let q = max (ilog2 x - 52) (- 1074);
                    y = scale2 (of_int (round_half_even (scale2 x (- q)))) q
                in if double_limit \<le> y then None else Some y)"

text \<open>The number a decimal literal or a JSON number denotes.\<close>

definition number_of_rat :: "rat \<Rightarrow> number" where
  "number_of_rat x = (case fl \<bar>x\<bar> of None \<Rightarrow> Infinity (x < 0) | Some y \<Rightarrow> Fin (x < 0) y)"

definition number_of_nat :: "nat \<Rightarrow> number" where
  "number_of_nat n = number_of_rat (of_nat n)"

text \<open>The operator \<open>*\<close> on numbers.\<close>

fun num_mul :: "number \<Rightarrow> number \<Rightarrow> number" where
  "num_mul NaN y = NaN"
| "num_mul x NaN = NaN"
| "num_mul (Infinity s) (Infinity t) = Infinity (s \<noteq> t)"
| "num_mul (Infinity s) (Fin t n) = (if n = 0 then NaN else Infinity (s \<noteq> t))"
| "num_mul (Fin s m) (Infinity t) = (if m = 0 then NaN else Infinity (s \<noteq> t))"
| "num_mul (Fin s m) (Fin t n) =
     (case fl (m * n) of None \<Rightarrow> Infinity (s \<noteq> t) | Some y \<Rightarrow> Fin (s \<noteq> t) y)"

text \<open>
  \<open>Number.prototype.toFixed(0)\<close>: a value that is not finite prints its name; below
  \<open>10^21\<close> the nearest integer is printed, the larger one on a tie, after the sign of a
  value below zero; from \<open>10^21\<close> on the result is \<open>Number::toString\<close>, in exponent
  notation, which is left as the parameter \<open>tostr\<close>.
\<close>

definition toFixed0 :: "(number \<Rightarrow> jstring) \<Rightarrow> number \<Rightarrow> jstring" where
  "toFixed0 tostr x =
     (case x of
        NaN \<Rightarrow> lit ''NaN''
      | Infinity s \<Rightarrow> (if s then lit ''-Infinity'' else lit ''Infinity'')
      | Fin s m \<Rightarrow>
          (if s \<and> m \<noteq> 0 then lit ''-'' else []) @
          (if 10 ^ 21 \<le> m then tostr (Fin False m)
           else digits (nat (let n = \<lfloor>m\<rfloor> in if m - of_int n < 1/2 then n else n + 1))))"

subsection \<open>Dynamic values\<close>

text \<open>
  The values the code inspects at run time (\<open>unknown\<close> in the source): conversation
  messages, their content blocks, request bodies and the \<open>details\<close> of a tool result.
  An object is the list of its own properties.
\<close>

datatype jsvalue =
    JUndefined
  | JNull
  | JBool bool
  | JNum number
  | JStr jstring
  | JArr "jsvalue list"
  | JObj "(jstring \<times> jsvalue) list"

fun truthy :: "jsvalue \<Rightarrow> bool" where
  "truthy JUndefined = False"
| "truthy JNull = False"
| "truthy (JBool b) = b"
| "truthy (JNum NaN) = False"
| "truthy (JNum (Fin s m)) = (m \<noteq> 0)"
| "truthy (JNum (Infinity s)) = True"
| "truthy (JStr s) = (s \<noteq> [])"
| "truthy (JArr xs) = True"
| "truthy (JObj kvs) = True"

fun typeof :: "jsvalue \<Rightarrow> jstring" where
  "typeof JUndefined = lit ''undefined''"
| "typeof JNull = lit ''object''"
| "typeof (JBool b) = lit ''boolean''"
| "typeof (JNum n) = lit ''number''"
| "typeof (JStr s) = lit ''string''"
| "typeof (JArr xs) = lit ''object''"
| "typeof (JObj kvs) = lit ''object''"

text \<open>
  Property read \<open>v.k\<close> and the operator \<open>k in v\<close> on an object or an array. An array has
  the properties \<open>length\<close> and its indices. The code reads only \<open>role\<close>, \<open>content\<close>,
  \<open>type\<close>, \<open>text\<close> and \<open>memory_ids\<close>, none of which is inherited from a prototype,
  and only from values it has tested to be objects, so the last equations are never
  reached.
\<close>

fun get_prop :: "jsvalue \<Rightarrow> jstring \<Rightarrow> jsvalue" where
  "get_prop (JObj kvs) k = (case map_of kvs k of Some v \<Rightarrow> v | None \<Rightarrow> JUndefined)"
| "get_prop (JArr xs) k =
     (if k = lit ''length'' then JNum (number_of_nat (length xs))
      else case find (\<lambda>i. digits i = k) [0..<length xs] of
             Some i \<Rightarrow> xs ! i
           | None \<Rightarrow> JUndefined)"
| "get_prop v k = JUndefined"

fun has_prop :: "jstring \<Rightarrow> jsvalue \<Rightarrow> bool" where
  "has_prop k (JObj kvs) = (k \<in> fst ` set kvs)"
| "has_prop k (JArr xs) = (k = lit ''length'' \<or> k \<in> digits ` {0..<length xs})"
| "has_prop k v = False"

fun opt_string :: "jstring option \<Rightarrow> jsvalue" where
  "opt_string None = JUndefined"
| "opt_string (Some s) = JStr s"

fun opt_strings :: "jstring list option \<Rightarrow> jsvalue" where
  "opt_strings None = JUndefined"
| "opt_strings (Some ss) = JArr (map JStr ss)"

subsection \<open>Errors\<close>

text \<open>
  A thrown \<open>Error\<close> object, with its \<open>name\<close> and \<open>message\<close>. \<open>String(err)\<close> is
  \<open>Error.prototype.toString\<close>.
\<close>

datatype js_error = JsError (err_name: jstring) (err_message: jstring)

definition new_Error :: "jstring \<Rightarrow> js_error" where
  "new_Error msg = JsError (lit ''Error'') msg"

definition String_err :: "js_error \<Rightarrow> jstring" where
  "String_err err =
     (if err_name err = [] then err_message err
      else if err_message err = [] then err_name err
      else err_name err @ lit '': '' @ err_message err)"

section \<open>The Hindsight client\<close>

subsection \<open>The world outside the plugin\<close>

text \<open>
  A request as handed to \<open>fetch\<close>. The field \<open>body\<close> holds the value that the source
  passes to \<open>JSON.stringify\<close> (the serialiser itself is not part of the code), or
  \<open>None\<close> where the source passes \<open>undefined\<close>.
\<close>

record http_request =
  url :: jstring
  http_method :: jstring
  headers :: "(jstring \<times> jstring) list"
  body :: "jsvalue option"

text \<open>
  What \<open>fetch\<close> does with a request: the promise rejects, or it resolves to a response
  with a \<open>status\<close>, the outcome of \<open>response.text()\<close> and the outcome of
  \<open>response.json()\<close>, already at the type \<open>T\<close> that \<open>request<T>\<close> casts it to.
\<close>

datatype 'r fetch_outcome =
    Rejected js_error
  | Response nat "js_error + jstring" "js_error + 'r"

text \<open>
  The body of a retain response is an object: its declared type is
  \<open>{success: boolean; items_count: number}\<close>, and it has whatever properties the
  service sent. The body of a recall response has the declared type
  \<open>{results: Array<{memory_id, content, score, timestamp?}>}\<close>; \<open>results\<close> is optional
  because the code tests for its absence.
\<close>

type_synonym retain_response = "(jstring \<times> jsvalue) list"

record recall_result =
  memory_id :: jstring
  content :: jstring
  score :: number
  timestamp :: "jstring option"

record recall_response =
  results :: "recall_result list option"

text \<open>
  The environment of a run. The outcome of a \<open>fetch\<close> and the reading of the clock
  (\<open>new Date().toISOString()\<close>) may depend on how many requests were issued before, so
  that successive calls can differ. \<open>number_to_string\<close> is \<open>Number::toString\<close> for
  the magnitudes from \<open>10^21\<close> on.
\<close>

record env =
  fetch_retain :: "nat \<Rightarrow> http_request \<Rightarrow> retain_response fetch_outcome"
  fetch_recall :: "nat \<Rightarrow> http_request \<Rightarrow> recall_response fetch_outcome"
  clock :: "nat \<Rightarrow> jstring"
  number_to_string :: "number \<Rightarrow> jstring"

text \<open>What the host observes: the requests issued and the lines logged, in order.\<close>

datatype log_level = Info | Warn

record host =
  sent :: "http_request list"
  logged :: "(log_level \<times> jstring) list"

definition log_line :: "log_level \<Rightarrow> jstring \<Rightarrow> host \<Rightarrow> host" where
  "log_line lvl msg h = h\<lparr>logged := logged h @ [(lvl, msg)]\<rparr>"

subsection \<open>class HindsightClient\<close>

record client =
  baseUrl :: jstring
  bankId :: jstring
  apiKey :: "jstring option"

definition ok :: "nat \<Rightarrow> bool" where
  "ok st \<longleftrightarrow> 200 \<le> st \<and> st \<le> 299"

definition request_headers :: "client \<Rightarrow> (jstring \<times> jstring) list" where
  "request_headers c =
     [(lit ''Content-Type'', lit ''application/json'')] @
     (case apiKey c of
        Some k \<Rightarrow> if k \<noteq> [] then [(lit ''Authorization'', lit ''Bearer '' @ k)] else []
      | None \<Rightarrow> [])"

definition request ::
  "client \<Rightarrow> (nat \<Rightarrow> http_request \<Rightarrow> 'r fetch_outcome) \<Rightarrow> host \<Rightarrow>
     jstring \<Rightarrow> jstring \<Rightarrow> jsvalue \<Rightarrow> (js_error + 'r) \<times> host" where
  "request c fetch h meth path b =
     (let req = \<lparr>url = baseUrl c @ path, http_method = meth, headers = request_headers c,
                 body = (if truthy b then Some b else None)\<rparr>;
          h' = h\<lparr>sent := sent h @ [req]\<rparr>
      in case fetch (length (sent h)) req of
           Rejected err \<Rightarrow> (Inl err, h')
         | Response st txt js \<Rightarrow>
             if \<not> ok st then
               (case txt of
                  Inl err \<Rightarrow> (Inl err, h')
                | Inr t \<Rightarrow>
                    (Inl (new_Error (lit ''Hindsight API error ('' @ digits st @ lit ''): '' @ t)),
                     h'))
             else (js, h'))"

record tagged =
  tags :: "jstring list option"

record retain_options = tagged +
  "context" :: "jstring option"

record recall_options = tagged +
  maxTokens :: "number option"

definition retain_body :: "jstring \<Rightarrow> retain_options option \<Rightarrow> jstring \<Rightarrow> jsvalue" where
  "retain_body c options now =
     JObj [(lit ''items'',
            JArr [JObj [(lit ''content'', JStr c),
                        (lit ''context'', opt_string (Option.bind options context)),
                        (lit ''tags'', opt_strings (Option.bind options tags)),
                        (lit ''timestamp'', JStr now)]])]"

definition retain ::
  "client \<Rightarrow> env \<Rightarrow> host \<Rightarrow> jstring \<Rightarrow> retain_options option \<Rightarrow>
     (js_error + retain_response) \<times> host" where
  "retain c e h cont options =
     request c (fetch_retain e) h (lit ''POST'')
       (lit ''/v1/default/banks/'' @ bankId c @ lit ''/memories'')
       (retain_body cont options (clock e (length (sent h))))"

definition recall_body :: "jstring \<Rightarrow> recall_options option \<Rightarrow> jsvalue" where
  "recall_body query options =
     JObj [(lit ''query'', JStr query),
           (lit ''max_tokens'',
            JNum (case Option.bind options maxTokens of
                    None \<Rightarrow> number_of_rat 2000
                  | Some n \<Rightarrow> n)),
           (lit ''budget'', JStr (lit ''mid'')),
           (lit ''tags'', opt_strings (Option.bind options tags))]"

definition recall ::
  "client \<Rightarrow> env \<Rightarrow> host \<Rightarrow> jstring \<Rightarrow> recall_options option \<Rightarrow>
     (js_error + recall_response) \<times> host" where
  "recall c e h query options =
     request c (fetch_recall e) h (lit ''POST'')
       (lit ''/v1/default/banks/'' @ bankId c @ lit ''/memories/recall'')
       (recall_body query options)"

section \<open>The plugin\<close>

subsection \<open>Tools\<close>

record content_block =
  block_type :: jstring
  block_text :: jstring

record tool_result =
  result_content :: "content_block list"
  details :: jsvalue

definition text_result :: "jstring \<Rightarrow> jsvalue \<Rightarrow> tool_result" where
  "text_result t d =
     \<lparr>result_content = [\<lparr>block_type = lit ''text'', block_text = t\<rparr>], details = d\<rparr>"

text \<open>One line of the numbered list of \<open>hindsight_recall\<close>, for the array index \<open>i\<close>.\<close>

definition recall_line :: "env \<Rightarrow> nat \<times> recall_result \<Rightarrow> jstring" where
  "recall_line e = (\<lambda>(i, r).
     digits (i + 1) @ lit ''. '' @ content r @ lit '' (relevance: '' @
     toFixed0 (number_to_string e) (num_mul (score r) (number_of_rat 100)) @ lit ''%)'')"

text \<open>
  The two \<open>execute\<close> functions. The body of each is one \<open>try\<close> statement: the first
  branch below is the \<open>try\<close> block after the client call has returned, the second is the
  \<open>catch\<close> block for the error that the client call threw.
\<close>

definition recall_execute ::
  "client \<Rightarrow> env \<Rightarrow> host \<Rightarrow> jstring \<Rightarrow> number option \<Rightarrow>
     (js_error + tool_result) \<times> host" where
  "recall_execute c e h query maxTok =
     (case recall c e h query (Some \<lparr>tags = None, maxTokens = maxTok\<rparr>) of
        (Inr response, h') \<Rightarrow>
          (case results response of
             None \<Rightarrow>
               (Inr (text_result (lit ''No relevant memories found.'')
                       (JObj [(lit ''count'', JNum (number_of_rat 0))])), h')
           | Some rs \<Rightarrow>
               if length rs = 0 then
                 (Inr (text_result (lit ''No relevant memories found.'')
                         (JObj [(lit ''count'', JNum (number_of_rat 0))])), h')
               else
                 (let text = join (lit ''\<newline>\<newline>'') (map (recall_line e) (enumerate 0 rs))
                  in (Inr (text_result
                             (lit ''Found '' @ digits (length rs) @ lit '' memories:\<newline>\<newline>'' @ text)
                             (JObj [(lit ''count'', JNum (number_of_nat (length rs))),
                                    (lit ''memories'',
                                     JArr (map (\<lambda>r. JObj [(lit ''id'', JStr (memory_id r)),
                                                           (lit ''content'', JStr (content r)),
                                                           (lit ''score'', JNum (score r))]) rs))])),
                      h')))
      | (Inl err, h') \<Rightarrow>
          (Inr (text_result (lit ''Memory recall failed: '' @ String_err err)
                  (JObj [(lit ''error'', JStr (String_err err))])),
           log_line Warn (lit ''hindsight_recall failed: '' @ String_err err) h'))"

definition retain_execute ::
  "client \<Rightarrow> env \<Rightarrow> host \<Rightarrow> jstring \<Rightarrow> jstring option \<Rightarrow> jstring list option \<Rightarrow>
     (js_error + tool_result) \<times> host" where
  "retain_execute c e h cont ctx tgs =
     (case retain c e h cont (Some \<lparr>tags = tgs, context = ctx\<rparr>) of
        (Inr response, h') \<Rightarrow>
          (Inr (text_result
                  (lit ''Stored in memory: '' @ dquote @ take 100 cont @
                   (if 100 < length cont then lit ''...'' else []) @ dquote)
                  (JObj [(lit ''action'', JStr (lit ''created'')),
                         (lit ''memoryIds'', get_prop (JObj response) (lit ''memory_ids''))])),
           h')
      | (Inl err, h') \<Rightarrow>
          (Inr (text_result (lit ''Failed to store memory: '' @ String_err err)
                  (JObj [(lit ''error'', JStr (String_err err))])),
           log_line Warn (lit ''hindsight_retain failed: '' @ String_err err) h'))"

subsection \<open>Lifecycle hooks\<close>

text \<open>
  The handler of \<open>before_agent_start\<close>, which \<open>register\<close> installs when
  \<open>cfg.autoRecall\<close> is set. Its result is the \<open>prependContext\<close> of the object it
  returns, \<open>None\<close> where it returns nothing. The guard on the prompt stands before the
  \<open>try\<close> statement; the last branch is the \<open>catch\<close> block.
\<close>

record before_agent_start_event =
  prompt :: "jstring option"

definition before_agent_start ::
  "client \<Rightarrow> env \<Rightarrow> host \<Rightarrow> before_agent_start_event \<Rightarrow>
     (js_error + jstring option) \<times> host" where
  "before_agent_start c e h event =
     (case prompt event of
        None \<Rightarrow> (Inr None, h)
      | Some p \<Rightarrow>
          if p = [] \<or> length p < 10 then (Inr None, h)
          else
            (case recall c e h p (Some \<lparr>tags = None, maxTokens = Some (number_of_rat 1500)\<rparr>) of
               (Inr response, h') \<Rightarrow>
                 (case results response of
                    None \<Rightarrow> (Inr None, h')
                  | Some rs \<Rightarrow>
                      if length rs = 0 then (Inr None, h')
                      else
                        (let memoryContext =
                               join (lit ''\<newline>'') (map (\<lambda>r. lit ''- '' @ content r) (take 5 rs))
                         in (Inr (Some (lit ''<relevant-memories>\<newline>The following memories may be relevant:\<newline>'' @
                                        memoryContext @ lit ''\<newline></relevant-memories>'')),
                             log_line Info
                               (lit ''hindsight-memory: injecting '' @ digits (length rs) @
                                lit '' memories into context'') h')))
             | (Inl err, h') \<Rightarrow>
                 (Inr None,
                  log_line Warn (lit ''hindsight-memory: auto-recall failed: '' @ String_err err)
                    h')))"

text \<open>
  The handler of \<open>agent_end\<close>, which \<open>register\<close> installs when \<open>cfg.autoRetain\<close> is
  set. \<open>block_texts\<close> is the body of the loop over the blocks of an array content,
  \<open>message_texts\<close> the body of the loop over the messages, and \<open>toRetain\<close> the list
  that the loop builds. The handler returns nothing: its result is \<open>()\<close>.
\<close>

record agent_end_event =
  success :: bool
  messages :: "jsvalue list option"

definition block_texts :: "jsvalue \<Rightarrow> jstring list" where
  "block_texts block =
     (if truthy block \<and> typeof block = lit ''object'' \<and> has_prop (lit ''type'') block \<and>
         get_prop block (lit ''type'') = JStr (lit ''text'') \<and> has_prop (lit ''text'') block
      then (case get_prop block (lit ''text'') of
              JStr text \<Rightarrow> if 10 < length (trim text) then [trim text] else []
            | _ \<Rightarrow> [])
      else [])"

definition message_texts :: "jsvalue \<Rightarrow> jstring list" where
  "message_texts msg =
     (if \<not> truthy msg \<or> typeof msg \<noteq> lit ''object'' then []
      else if get_prop msg (lit ''role'') \<noteq> JStr (lit ''user'') then []
      else (case get_prop msg (lit ''content'') of
              JStr s \<Rightarrow> if 10 < length (trim s) then [trim s] else []
            | JArr blocks \<Rightarrow> concat (map block_texts blocks)
            | _ \<Rightarrow> []))"

definition toRetain :: "jsvalue list \<Rightarrow> jstring list" where
  "toRetain msgs = concat (map message_texts msgs)"

definition auto_options :: retain_options where
  "auto_options =
     \<lparr>tags = Some [lit ''conversation'', lit ''auto''],
      context = Some (lit ''auto-captured from conversation'')\<rparr>"

text \<open>
  The loop over \<open>toRetain.slice(0, 5)\<close>, with the counter \<open>retained\<close>. A failing
  \<open>retain\<close> leaves the loop with its error.
\<close>

fun retain_loop ::
  "client \<Rightarrow> env \<Rightarrow> host \<Rightarrow> jstring list \<Rightarrow> nat \<Rightarrow> (js_error + nat) \<times> host" where
  "retain_loop c e h [] retained = (Inr retained, h)"
| "retain_loop c e h (x # xs) retained =
     (case retain c e h x (Some auto_options) of
        (Inl err, h') \<Rightarrow> (Inl err, h')
      | (Inr response, h') \<Rightarrow> retain_loop c e h' xs (retained + 1))"

text \<open>
  The guard on the event stands before the \<open>try\<close> statement, whose block holds the two
  loops and the report; the last branch is the \<open>catch\<close> block.
\<close>

definition agent_end ::
  "client \<Rightarrow> env \<Rightarrow> host \<Rightarrow> agent_end_event \<Rightarrow> (js_error + unit) \<times> host" where
  "agent_end c e h event =
     (if \<not> success event then (Inr (), h)
      else case messages event of
             None \<Rightarrow> (Inr (), h)
           | Some msgs \<Rightarrow>
               if length msgs = 0 then (Inr (), h)
               else
                 (case retain_loop c e h (take 5 (toRetain msgs)) 0 of
                    (Inr retained, h') \<Rightarrow>
                      if 0 < retained then
                        (Inr (),
                         log_line Info
                           (lit ''hindsight-memory: auto-retained '' @ digits retained @
                            lit '' messages'') h')
                      else (Inr (), h')
                  | (Inl err, h') \<Rightarrow>
                      (Inr (),
                       log_line Warn
                         (lit ''hindsight-memory: auto-retain failed: '' @ String_err err) h')))"

section \<open>Observations\<close>

text \<open>
  The vocabulary of the properties below: the requests a handler issued, the
  \<open>Authorization\<close> header of a request, and the requests that the specification
  describes.
\<close>

definition issued :: "host \<Rightarrow> host \<Rightarrow> http_request list" where
  "issued h h' = drop (length (sent h)) (sent h')"

definition authorization :: "http_request \<Rightarrow> jstring option" where
  "authorization r = map_of (headers r) (lit ''Authorization'')"

text \<open>
  What the host receives from a tool invocation that returned: the texts of the content
  blocks and the details. There is nothing to receive from an invocation that threw.
\<close>

definition result_texts :: "js_error + tool_result \<Rightarrow> jstring list option" where
  "result_texts res =
     (case res of Inl err \<Rightarrow> None | Inr r \<Rightarrow> Some (map block_text (result_content r)))"

definition result_details :: "js_error + tool_result \<Rightarrow> jsvalue option" where
  "result_details res = (case res of Inl err \<Rightarrow> None | Inr r \<Rightarrow> Some (details r))"

text \<open>The items of the batch a request carries, and the content of each.\<close>

definition body_items :: "http_request \<Rightarrow> jsvalue list" where
  "body_items r =
     (case body r of
        Some b \<Rightarrow> (case get_prop b (lit ''items'') of JArr items \<Rightarrow> items | _ \<Rightarrow> [])
      | None \<Rightarrow> [])"

definition stored_contents :: "http_request \<Rightarrow> jsvalue list" where
  "stored_contents r = map (\<lambda>item. get_prop item (lit ''content'')) (body_items r)"

text \<open>
  An outcome of \<open>fetch\<close> on which the client call returns: a response with a 2xx status
  whose body parses.
\<close>

fun succeeds :: "'r fetch_outcome \<Rightarrow> bool" where
  "succeeds (Response st txt (Inr v)) = ok st"
| "succeeds out = False"

text \<open>The body that a client call returns for an outcome of \<open>fetch\<close>, if it returns.\<close>

fun answer :: "'r fetch_outcome \<Rightarrow> 'r option" where
  "answer (Response st tx (Inr v)) = (if ok st then Some v else None)"
| "answer out = None"

text \<open>
  The requests that the specification describes: a creation request for a batch of the
  one item \<open>x\<close> with the time \<open>now\<close>, and a search request with the budget tier
  \<open>mid\<close> and the token ceiling \<open>mt\<close>.
\<close>

definition retain_request ::
  "client \<Rightarrow> jstring \<Rightarrow> jstring option \<Rightarrow> jstring list option \<Rightarrow> jstring \<Rightarrow> http_request" where
  "retain_request c x ctx tgs now =
     \<lparr>url = baseUrl c @ lit ''/v1/default/banks/'' @ bankId c @ lit ''/memories'',
      http_method = lit ''POST'', headers = request_headers c,
      body = Some (JObj [(lit ''items'',
               JArr [JObj [(lit ''content'', JStr x),
                           (lit ''context'', opt_string ctx),
                           (lit ''tags'', opt_strings tgs),
                           (lit ''timestamp'', JStr now)]])])\<rparr>"

definition recall_request ::
  "client \<Rightarrow> jstring \<Rightarrow> number \<Rightarrow> jstring list option \<Rightarrow> http_request" where
  "recall_request c q mt tgs =
     \<lparr>url = baseUrl c @ lit ''/v1/default/banks/'' @ bankId c @ lit ''/memories/recall'',
      http_method = lit ''POST'', headers = request_headers c,
      body = Some (JObj [(lit ''query'', JStr q),
                         (lit ''max_tokens'', JNum mt),
                         (lit ''budget'', JStr (lit ''mid'')),
                         (lit ''tags'', opt_strings tgs)])\<rparr>"

text \<open>
  The requests of the auto-retain pipeline for the candidates \<open>xs\<close>, the first of them
  being request number \<open>n\<close>: each is tagged \<open>conversation\<close> and \<open>auto\<close> and carries
  the fixed context string.
\<close>

definition auto_request :: "client \<Rightarrow> jstring \<Rightarrow> jstring \<Rightarrow> http_request" where
  "auto_request c now x =
     retain_request c x (Some (lit ''auto-captured from conversation''))
       (Some [lit ''conversation'', lit ''auto'']) now"

definition auto_requests :: "client \<Rightarrow> env \<Rightarrow> nat \<Rightarrow> jstring list \<Rightarrow> http_request list" where
  "auto_requests c e n xs = map (\<lambda>(i, x). auto_request c (clock e i) x) (enumerate n xs)"

text \<open>
  The candidates of the auto-retain pipeline in the words of the specification. Only a
  message with role \<open>user\<close> is considered. Its candidate texts are its content, when
  that is a string, or the text of each block of type \<open>text\<close>, when it is a sequence of
  blocks. A candidate is kept when its trimmed length exceeds 10, and it is the trimmed
  text that is kept.
\<close>

definition is_user_message :: "jsvalue \<Rightarrow> bool" where
  "is_user_message msg =
     (case msg of
        JObj kvs \<Rightarrow> map_of kvs (lit ''role'') = Some (JStr (lit ''user''))
      | _ \<Rightarrow> False)"

definition text_of_block :: "jsvalue \<Rightarrow> jstring option" where
  "text_of_block block =
     (case block of
        JObj kvs \<Rightarrow>
          if map_of kvs (lit ''type'') = Some (JStr (lit ''text'')) then
            (case map_of kvs (lit ''text'') of Some (JStr t) \<Rightarrow> Some t | _ \<Rightarrow> None)
          else None
      | _ \<Rightarrow> None)"

definition raw_texts :: "jsvalue \<Rightarrow> jstring list" where
  "raw_texts msg =
     (case msg of
        JObj kvs \<Rightarrow>
          (case map_of kvs (lit ''content'') of
             Some (JStr s) \<Rightarrow> [s]
           | Some (JArr blocks) \<Rightarrow> List.map_filter text_of_block blocks
           | _ \<Rightarrow> [])
      | _ \<Rightarrow> [])"

definition user_texts :: "jsvalue list \<Rightarrow> jstring list" where
  "user_texts msgs = concat (map raw_texts (filter is_user_message msgs))"

definition spec_candidates :: "jsvalue list \<Rightarrow> jstring list" where
  "spec_candidates msgs = map trim (filter (\<lambda>t. 10 < length (trim t)) (user_texts msgs))"

text \<open>The rational value of a finite number.\<close>

fun value_of :: "number \<Rightarrow> rat" where
  "value_of (Fin s m) = (if s then - m else m)"
| "value_of x = 0"

text \<open>A score in the range of the data model, from 0 to 1.\<close>

definition unit_score :: "number \<Rightarrow> bool" where
  "unit_score sc = (case sc of Fin s m \<Rightarrow> 0 \<le> m \<and> m \<le> 1 \<and> (s \<longrightarrow> m = 0) | _ \<Rightarrow> False)"

text \<open>
  The line of the recall tool for the result \<open>r\<close> at the 1-based index \<open>i\<close> in the
  words of the specification: the percentage is \<open>round(score * 100)\<close>, the integer
  nearest to the product of the score and 100, the upper one on a tie. The product is the
  exact one, of rational numbers; no machine arithmetic takes part.
\<close>

definition spec_line :: "nat \<Rightarrow> recall_result \<Rightarrow> jstring" where
  "spec_line i r =
     digits i @ lit ''. '' @ content r @ lit '' (relevance: '' @
     digits (nat (round (value_of (score r) * 100))) @ lit ''%)''"

text \<open>
  A rational number that lies within \<open>2^-47\<close> of the midpoint between two consecutive
  integers. \<open>2^-47\<close> is the largest error of a double product below 128.
\<close>

definition near_tie :: "rat \<Rightarrow> bool" where
  "near_tie y \<longleftrightarrow> \<bar>y - of_int \<lfloor>y\<rfloor> - 1/2\<bar> \<le> 1 / 2 ^ 47"

section \<open>Scenarios\<close>

text \<open>
  Concrete clients, environments and events, on which the properties are exercised. On a
  2xx status the code never reads the text of the body; the scenarios leave it as \<open>{}\<close>.
\<close>

definition local_client :: "jstring option \<Rightarrow> client" where
  "local_client key =
     \<lparr>baseUrl = lit ''http://localhost:8001'', bankId = lit ''aletheia'', apiKey = key\<rparr>"

definition host0 :: host where
  "host0 = \<lparr>sent = [], logged = []\<rparr>"

definition env_of ::
  "retain_response fetch_outcome \<Rightarrow> recall_response fetch_outcome \<Rightarrow> env" where
  "env_of a b =
     \<lparr>fetch_retain = (\<lambda>n r. a), fetch_recall = (\<lambda>n r. b),
      clock = (\<lambda>n. lit ''2026-01-01T00:00:00.000Z''), number_to_string = (\<lambda>x. [])\<rparr>"

definition db_down :: "'r fetch_outcome" where
  "db_down =
     Response 500 (Inr (lit ''db down''))
       (Inl (JsError (lit ''SyntaxError'') (lit ''Unexpected token d in JSON at position 0'')))"

definition stored :: "retain_response fetch_outcome" where
  "stored =
     Response 200 (Inr (lit ''{}''))
       (Inr [(lit ''success'', JBool True), (lit ''items_count'', JNum (Fin False 1))])"

definition found :: "recall_result list \<Rightarrow> recall_response fetch_outcome" where
  "found rs = Response 200 (Inr (lit ''{}'')) (Inr \<lparr>results = Some rs\<rparr>)"

text \<open>A store that accepts the first \<open>n\<close> requests and is down from then on.\<close>

definition outage_after :: "nat \<Rightarrow> env" where
  "outage_after n =
     \<lparr>fetch_retain = (\<lambda>i r. if i < n then stored else db_down),
      fetch_recall = (\<lambda>i r. db_down),
      clock = (\<lambda>i. lit ''2026-01-01T00:00:00.000Z''), number_to_string = (\<lambda>x. [])\<rparr>"

definition memory :: "string \<Rightarrow> rat \<Rightarrow> recall_result" where
  "memory t sc =
     \<lparr>memory_id = lit ''m'', content = lit t, score = number_of_rat sc, timestamp = None\<rparr>"

definition user_message :: "jstring \<Rightarrow> jsvalue" where
  "user_message s = JObj [(lit ''role'', JStr (lit ''user'')), (lit ''content'', JStr s)]"

definition text_block :: "string \<Rightarrow> jstring \<Rightarrow> jsvalue" where
  "text_block kind t = JObj [(lit ''type'', JStr (lit kind)), (lit ''text'', JStr t)]"

definition conversation :: "jsvalue list" where
  "conversation =
     [user_message (lit ''  I prefer dark mode  ''),
      JObj [(lit ''role'', JStr (lit ''assistant'')),
            (lit ''content'', JStr (lit ''Noted, dark mode it is.''))],
      user_message (lit ''ok''),
      JObj [(lit ''role'', JStr (lit ''user'')),
            (lit ''content'',
             JArr [text_block ''text'' (lit ''My editor is Neovim''),
                   text_block ''image'' (lit ''a screenshot of the editor''),
                   text_block ''text'' (lit ''thanks'')])],
      JNull,
      user_message (lit ''I live in Oslo, Norway''),
      user_message (lit ''My cat is called Miso''),
      user_message (lit ''I write Rust at work''),
      user_message (lit ''I play chess on weekends'')]"

section \<open>Facts about the client\<close>

lemma lit_append: "lit (a @ b) = lit a @ lit b"
  by (simp add: lit_def)

text \<open>
  What a client call does in terms of the outcome of its one \<open>fetch\<close>: the request it
  adds to those sent, and the value or the error it produces.
\<close>

lemma request_sent:
  "snd (request c f h m p b) =
     h\<lparr>sent := sent h @ [\<lparr>url = baseUrl c @ p, http_method = m, headers = request_headers c,
                           body = (if truthy b then Some b else None)\<rparr>]\<rparr>"
  by (simp add: request_def Let_def split: fetch_outcome.splits sum.splits)

lemma request_result:
  "fst (request c f h m p b) =
     (case f (length (sent h))
             \<lparr>url = baseUrl c @ p, http_method = m, headers = request_headers c,
              body = (if truthy b then Some b else None)\<rparr> of
        Rejected err \<Rightarrow> Inl err
      | Response st tx js \<Rightarrow>
          if ok st then js
          else (case tx of
                  Inl err \<Rightarrow> Inl err
                | Inr t \<Rightarrow> Inl (new_Error (lit ''Hindsight API error ('' @ digits st @ lit ''): '' @ t))))"
  by (simp add: request_def Let_def split: fetch_outcome.splits sum.splits)

lemma retain_snd:
  "snd (retain c e h x ro) =
     h\<lparr>sent := sent h @ [retain_request c x (Option.bind ro context) (Option.bind ro tags)
                           (clock e (length (sent h)))]\<rparr>"
  by (simp add: retain_def request_sent retain_request_def retain_body_def)

lemma recall_snd:
  "snd (recall c e h q co) =
     h\<lparr>sent := sent h @ [recall_request c q
        (case Option.bind co maxTokens of None \<Rightarrow> number_of_rat 2000 | Some n \<Rightarrow> n)
        (Option.bind co tags)]\<rparr>"
  by (simp add: recall_def request_sent recall_request_def recall_body_def)

lemma retain_fst:
  "fst (retain c e h x ro) =
     (case fetch_retain e (length (sent h))
             (retain_request c x (Option.bind ro context) (Option.bind ro tags)
                (clock e (length (sent h)))) of
        Rejected err \<Rightarrow> Inl err
      | Response st tx js \<Rightarrow>
          if ok st then js
          else (case tx of
                  Inl err \<Rightarrow> Inl err
                | Inr t \<Rightarrow> Inl (new_Error (lit ''Hindsight API error ('' @ digits st @ lit ''): '' @ t))))"
  by (simp add: retain_def request_result retain_request_def retain_body_def)

lemma recall_fst:
  "fst (recall c e h q co) =
     (case fetch_recall e (length (sent h))
             (recall_request c q
                (case Option.bind co maxTokens of None \<Rightarrow> number_of_rat 2000 | Some n \<Rightarrow> n)
                (Option.bind co tags)) of
        Rejected err \<Rightarrow> Inl err
      | Response st tx js \<Rightarrow>
          if ok st then js
          else (case tx of
                  Inl err \<Rightarrow> Inl err
                | Inr t \<Rightarrow> Inl (new_Error (lit ''Hindsight API error ('' @ digits st @ lit ''): '' @ t))))"
  by (simp add: recall_def request_result recall_request_def recall_body_def)

lemma sent_log_line: "sent (log_line lvl msg h) = sent h"
  by (simp add: log_line_def)

lemma authorization_request_headers:
  "map_of (request_headers c) (lit ''Authorization'') =
     (case apiKey c of
        None \<Rightarrow> None
      | Some k \<Rightarrow> if k = [] then None else Some (lit ''Bearer '' @ k))"
  by (simp add: request_headers_def lit_def split: option.splits)

lemma authorization_retain_request:
  "authorization (retain_request c x ctx tgs now) =
     (case apiKey c of
        None \<Rightarrow> None
      | Some k \<Rightarrow> if k = [] then None else Some (lit ''Bearer '' @ k))"
  by (simp add: authorization_def retain_request_def authorization_request_headers)

lemma authorization_recall_request:
  "authorization (recall_request c q mt tgs) =
     (case apiKey c of
        None \<Rightarrow> None
      | Some k \<Rightarrow> if k = [] then None else Some (lit ''Bearer '' @ k))"
  by (simp add: authorization_def recall_request_def authorization_request_headers)

lemma stored_contents_retain_request:
  "stored_contents (retain_request c x ctx tgs now) = [JStr x]"
  by (simp add: stored_contents_def body_items_def retain_request_def)

lemma recall_execute_sent:
  "sent (snd (recall_execute c e h q mt)) =
     sent h @ [recall_request c q (case mt of None \<Rightarrow> number_of_rat 2000 | Some n \<Rightarrow> n) None]"
proof -
  obtain res h' where r: "recall c e h q (Some \<lparr>tags = None, maxTokens = mt\<rparr>) = (res, h')"
    by (cases "recall c e h q (Some \<lparr>tags = None, maxTokens = mt\<rparr>)")
  with recall_snd [of c e h q "Some \<lparr>tags = None, maxTokens = mt\<rparr>"]
  have "sent h' = sent h @ [recall_request c q (case mt of None \<Rightarrow> number_of_rat 2000 | Some n \<Rightarrow> n) None]"
    by simp
  with r show ?thesis
    by (simp add: recall_execute_def Let_def sent_log_line split: sum.splits option.splits)
qed

lemma retain_execute_sent:
  "sent (snd (retain_execute c e h x ctx tgs)) =
     sent h @ [retain_request c x ctx tgs (clock e (length (sent h)))]"
proof -
  obtain res h' where r: "retain c e h x (Some \<lparr>tags = tgs, context = ctx\<rparr>) = (res, h')"
    by (cases "retain c e h x (Some \<lparr>tags = tgs, context = ctx\<rparr>)")
  with retain_snd [of c e h x "Some \<lparr>tags = tgs, context = ctx\<rparr>"]
  have "sent h' = sent h @ [retain_request c x ctx tgs (clock e (length (sent h)))]"
    by simp
  with r show ?thesis
    by (simp add: retain_execute_def sent_log_line split: sum.splits)
qed

lemma before_agent_start_sent:
  "sent (snd (before_agent_start c e h ev)) =
     (case prompt ev of
        None \<Rightarrow> sent h
      | Some p \<Rightarrow> if length p < 10 then sent h
                  else sent h @ [recall_request c p (number_of_rat 1500) None])"
proof (cases "prompt ev")
  case None
  then show ?thesis by (simp add: before_agent_start_def)
next
  case (Some p)
  let ?co = "Some \<lparr>tags = None, maxTokens = Some (number_of_rat 1500)\<rparr>"
  obtain res h' where r: "recall c e h p ?co = (res, h')"
    by (cases "recall c e h p ?co")
  with recall_snd [of c e h p ?co]
  have "sent h' = sent h @ [recall_request c p (number_of_rat 1500) None]"
    by simp
  with r Some show ?thesis
    by (auto simp: before_agent_start_def Let_def sent_log_line split: sum.splits option.splits)
qed

lemma retain_auto_snd:
  "snd (retain c e h x (Some auto_options)) =
     h\<lparr>sent := sent h @ [auto_request c (clock e (length (sent h))) x]\<rparr>"
  by (simp add: retain_snd auto_options_def auto_request_def)

lemma auto_requests_Nil: "auto_requests c e n [] = []"
  by (simp add: auto_requests_def)

lemma auto_requests_Cons:
  "auto_requests c e n (x # xs) = auto_request c (clock e n) x # auto_requests c e (Suc n) xs"
  by (simp add: auto_requests_def)

lemma retain_loop_prefix:
  "\<exists>k\<le>length xs.
     sent (snd (retain_loop c e h xs r)) =
       sent h @ auto_requests c e (length (sent h)) (take k xs) \<and>
     logged (snd (retain_loop c e h xs r)) = logged h"
proof (induction xs arbitrary: h r)
  case Nil
  then show ?case by (simp add: auto_requests_Nil)
next
  case (Cons x xs)
  obtain res h' where step: "retain c e h x (Some auto_options) = (res, h')"
    by (cases "retain c e h x (Some auto_options)")
  have h': "h' = h\<lparr>sent := sent h @ [auto_request c (clock e (length (sent h))) x]\<rparr>"
    using retain_auto_snd [of c e h x] step by simp
  show ?case
  proof (cases res)
    case (Inl err)
    have "sent (snd (retain_loop c e h (x # xs) r)) =
            sent h @ auto_requests c e (length (sent h)) (take 1 (x # xs))"
      using step Inl h' by (simp add: auto_requests_Cons auto_requests_Nil)
    moreover have "logged (snd (retain_loop c e h (x # xs) r)) = logged h"
      using step Inl h' by simp
    ultimately show ?thesis
      by (intro exI [of _ 1]) simp
  next
    case (Inr v)
    from Cons.IH [of h' "r + 1"] obtain k where k: "k \<le> length xs"
      and ks: "sent (snd (retain_loop c e h' xs (r + 1))) =
                 sent h' @ auto_requests c e (length (sent h')) (take k xs)"
      and kl: "logged (snd (retain_loop c e h' xs (r + 1))) = logged h'"
      by blast
    have "sent (snd (retain_loop c e h (x # xs) r)) =
            sent h @ auto_requests c e (length (sent h)) (take (Suc k) (x # xs))"
      using step Inr ks h' by (simp add: auto_requests_Cons)
    moreover have "logged (snd (retain_loop c e h (x # xs) r)) = logged h"
      using step Inr kl h' by simp
    ultimately show ?thesis
      using k by (intro exI [of _ "Suc k"]) simp
  qed
qed

lemma retain_loop_all_succeed:
  assumes "\<forall>n req. succeeds (fetch_retain e n req)"
  shows "retain_loop c e h xs r =
           (Inr (r + length xs), h\<lparr>sent := sent h @ auto_requests c e (length (sent h)) xs\<rparr>)"
proof (induction xs arbitrary: h r)
  case Nil
  then show ?case by (simp add: auto_requests_Nil)
next
  case (Cons x xs)
  let ?req = "auto_request c (clock e (length (sent h))) x"
  from assms have "succeeds (fetch_retain e (length (sent h)) ?req)" by blast
  then obtain st tx v
    where "fetch_retain e (length (sent h)) ?req = Response st tx (Inr v)" "ok st"
    by (cases "fetch_retain e (length (sent h)) ?req" rule: succeeds.cases) auto
  then have "fst (retain c e h x (Some auto_options)) = Inr v"
    by (simp add: retain_fst auto_options_def auto_request_def)
  with retain_auto_snd [of c e h x]
  have step: "retain c e h x (Some auto_options) = (Inr v, h\<lparr>sent := sent h @ [?req]\<rparr>)"
    by (simp add: prod_eq_iff)
  show ?case
    by (simp add: step Cons.IH auto_requests_Cons)
qed

lemma agent_end_sent:
  "\<exists>k\<le>min 5 (length (toRetain (case messages ev of None \<Rightarrow> [] | Some msgs \<Rightarrow> msgs))).
     sent (snd (agent_end c e h ev)) =
       sent h @ auto_requests c e (length (sent h))
         (take k (toRetain (case messages ev of None \<Rightarrow> [] | Some msgs \<Rightarrow> msgs)))"
proof (cases "success ev \<and> messages ev \<noteq> None \<and> messages ev \<noteq> Some []")
  case False
  then have "agent_end c e h ev = (Inr (), h)"
    by (auto simp: agent_end_def split: option.splits)
  then show ?thesis
    by (intro exI [of _ 0]) (simp add: auto_requests_Nil)
next
  case True
  then obtain msgs where m: "messages ev = Some msgs" "msgs \<noteq> []" "success ev"
    by auto
  let ?xs = "take 5 (toRetain msgs)"
  from retain_loop_prefix [of ?xs c e h 0] obtain k where k: "k \<le> length ?xs"
    and ks: "sent (snd (retain_loop c e h ?xs 0)) =
               sent h @ auto_requests c e (length (sent h)) (take k ?xs)"
    by blast
  have "sent (snd (agent_end c e h ev)) = sent (snd (retain_loop c e h ?xs 0))"
    using m by (simp add: agent_end_def sent_log_line split: prod.splits sum.splits)
  moreover from k have k5: "k \<le> 5" "k \<le> length (toRetain msgs)"
    by simp_all
  then have "take k ?xs = take k (toRetain msgs)"
    by (simp add: min_def)
  ultimately have "sent (snd (agent_end c e h ev)) =
                  sent h @ auto_requests c e (length (sent h)) (take k (toRetain msgs))"
    using ks by simp
  with k5 m show ?thesis
    by (intro exI [of _ k]) simp
qed

lemma authorization_auto_requests:
  "r \<in> set (auto_requests c e n xs) \<Longrightarrow>
     authorization r =
       (case apiKey c of
          None \<Rightarrow> None
        | Some k \<Rightarrow> if k = [] then None else Some (lit ''Bearer '' @ k))"
  by (auto simp: auto_requests_def auto_request_def authorization_retain_request)

lemma issued_retain:
  "issued h (snd (retain c e h x ro)) =
     [retain_request c x (Option.bind ro context) (Option.bind ro tags)
        (clock e (length (sent h)))]"
  by (simp add: retain_snd issued_def)

lemma issued_recall:
  "issued h (snd (recall c e h q co)) =
     [recall_request c q
        (case Option.bind co maxTokens of None \<Rightarrow> number_of_rat 2000 | Some n \<Rightarrow> n)
        (Option.bind co tags)]"
  by (simp add: recall_snd issued_def)

lemma issued_retain_execute:
  "issued h (snd (retain_execute c e h x ctx tgs)) =
     [retain_request c x ctx tgs (clock e (length (sent h)))]"
  by (simp add: retain_execute_sent issued_def)

lemma issued_recall_execute:
  "issued h (snd (recall_execute c e h q mt)) =
     [recall_request c q (case mt of None \<Rightarrow> number_of_rat 2000 | Some n \<Rightarrow> n) None]"
  by (simp add: recall_execute_sent issued_def)

lemma issued_before_agent_start:
  "issued h (snd (before_agent_start c e h ev)) =
     (case prompt ev of
        None \<Rightarrow> []
      | Some p \<Rightarrow> if length p < 10 then [] else [recall_request c p (number_of_rat 1500) None])"
  by (simp add: before_agent_start_sent issued_def split: option.splits)

lemma issued_agent_end:
  "\<exists>k\<le>min 5 (length (toRetain (case messages ev of None \<Rightarrow> [] | Some msgs \<Rightarrow> msgs))).
     issued h (snd (agent_end c e h ev)) =
       auto_requests c e (length (sent h))
         (take k (toRetain (case messages ev of None \<Rightarrow> [] | Some msgs \<Rightarrow> msgs)))"
  using agent_end_sent [of ev c e h] by (auto simp: issued_def)

lemma num_2000: "number_of_rat 2000 = Fin False 2000"
  by code_simp

lemma num_1500: "number_of_rat 1500 = Fin False 1500"
  by code_simp

lemma num_100: "number_of_rat 100 = Fin False 100"
  by code_simp

lemma num_0: "number_of_rat 0 = Fin False 0"
  by code_simp

section \<open>Facts about the tools and the hooks\<close>

lemma retain_pair:
  "retain c e h x ro =
     (fst (retain c e h x ro),
      h\<lparr>sent := sent h @ [retain_request c x (Option.bind ro context) (Option.bind ro tags)
                            (clock e (length (sent h)))]\<rparr>)"
  using retain_snd [of c e h x ro] by (simp add: prod_eq_iff)

lemma recall_pair:
  "recall c e h q co =
     (fst (recall c e h q co),
      h\<lparr>sent := sent h @ [recall_request c q
         (case Option.bind co maxTokens of None \<Rightarrow> number_of_rat 2000 | Some n \<Rightarrow> n)
         (Option.bind co tags)]\<rparr>)"
  using recall_snd [of c e h q co] by (simp add: prod_eq_iff)

lemma retain_execute_stored:
  assumes "fst (retain c e h x (Some \<lparr>tags = tgs, context = ctx\<rparr>)) = Inr v"
  shows "fst (retain_execute c e h x ctx tgs) =
           Inr (text_result
                  (lit ''Stored in memory: '' @ dquote @ take 100 x @
                   (if 100 < length x then lit ''...'' else []) @ dquote)
                  (JObj [(lit ''action'', JStr (lit ''created'')),
                         (lit ''memoryIds'', get_prop (JObj v) (lit ''memory_ids''))]))"
    and "logged (snd (retain_execute c e h x ctx tgs)) = logged h"
proof -
  obtain h' where "retain c e h x (Some \<lparr>tags = tgs, context = ctx\<rparr>) = (Inr v, h')"
    and "logged h' = logged h"
    using assms retain_pair [of c e h x "Some \<lparr>tags = tgs, context = ctx\<rparr>"] by simp
  then show "fst (retain_execute c e h x ctx tgs) =
           Inr (text_result
                  (lit ''Stored in memory: '' @ dquote @ take 100 x @
                   (if 100 < length x then lit ''...'' else []) @ dquote)
                  (JObj [(lit ''action'', JStr (lit ''created'')),
                         (lit ''memoryIds'', get_prop (JObj v) (lit ''memory_ids''))]))"
    and "logged (snd (retain_execute c e h x ctx tgs)) = logged h"
    by (simp_all add: retain_execute_def)
qed

lemma recall_execute_found:
  assumes "fst (recall c e h q (Some \<lparr>tags = None, maxTokens = mt\<rparr>)) = Inr v"
  shows "fst (recall_execute c e h q mt) =
           Inr (case results v of
                  None \<Rightarrow>
                    text_result (lit ''No relevant memories found.'')
                      (JObj [(lit ''count'', JNum (number_of_rat 0))])
                | Some rs \<Rightarrow>
                    if rs = [] then
                      text_result (lit ''No relevant memories found.'')
                        (JObj [(lit ''count'', JNum (number_of_rat 0))])
                    else
                      text_result
                        (lit ''Found '' @ digits (length rs) @ lit '' memories:\<newline>\<newline>'' @
                         join (lit ''\<newline>\<newline>'') (map (recall_line e) (enumerate 0 rs)))
                        (JObj [(lit ''count'', JNum (number_of_nat (length rs))),
                               (lit ''memories'',
                                JArr (map (\<lambda>r. JObj [(lit ''id'', JStr (memory_id r)),
                                                      (lit ''content'', JStr (content r)),
                                                      (lit ''score'', JNum (score r))]) rs))]))"
    and "logged (snd (recall_execute c e h q mt)) = logged h"
proof -
  obtain h' where "recall c e h q (Some \<lparr>tags = None, maxTokens = mt\<rparr>) = (Inr v, h')"
    and "logged h' = logged h"
    using assms recall_pair [of c e h q "Some \<lparr>tags = None, maxTokens = mt\<rparr>"] by simp
  then show "fst (recall_execute c e h q mt) =
           Inr (case results v of
                  None \<Rightarrow>
                    text_result (lit ''No relevant memories found.'')
                      (JObj [(lit ''count'', JNum (number_of_rat 0))])
                | Some rs \<Rightarrow>
                    if rs = [] then
                      text_result (lit ''No relevant memories found.'')
                        (JObj [(lit ''count'', JNum (number_of_rat 0))])
                    else
                      text_result
                        (lit ''Found '' @ digits (length rs) @ lit '' memories:\<newline>\<newline>'' @
                         join (lit ''\<newline>\<newline>'') (map (recall_line e) (enumerate 0 rs)))
                        (JObj [(lit ''count'', JNum (number_of_nat (length rs))),
                               (lit ''memories'',
                                JArr (map (\<lambda>r. JObj [(lit ''id'', JStr (memory_id r)),
                                                      (lit ''content'', JStr (content r)),
                                                      (lit ''score'', JNum (score r))]) rs))]))"
    and "logged (snd (recall_execute c e h q mt)) = logged h"
    by (simp_all add: recall_execute_def Let_def split: option.splits)
qed

lemma answer_cases:
  assumes "answer out = Some v"
  obtains st tx where "out = Response st tx (Inr v)" "ok st"
  using assms by (cases out rule: answer.cases) (auto split: if_splits)

lemma retain_answered:
  assumes "answer (fetch_retain e (length (sent h))
             (retain_request c x (Option.bind ro context) (Option.bind ro tags)
                (clock e (length (sent h))))) = Some v"
  shows "fst (retain c e h x ro) = Inr v"
  using assms by (elim answer_cases) (simp add: retain_fst)

lemma recall_answered:
  assumes "answer (fetch_recall e (length (sent h))
             (recall_request c q
                (case Option.bind co maxTokens of None \<Rightarrow> number_of_rat 2000 | Some n \<Rightarrow> n)
                (Option.bind co tags))) = Some v"
  shows "fst (recall c e h q co) = Inr v"
  using assms by (elim answer_cases) (simp add: recall_fst)

lemma before_agent_start_skipped:
  assumes "prompt ev = None \<or> (\<exists>p. prompt ev = Some p \<and> length p < 10)"
  shows "before_agent_start c e h ev = (Inr None, h)"
  using assms by (auto simp: before_agent_start_def)

lemma before_agent_start_failed:
  assumes "prompt ev = Some p" and "10 \<le> length p"
    and "fst (recall c e h p (Some \<lparr>tags = None, maxTokens = Some (number_of_rat 1500)\<rparr>)) =
           Inl err"
  shows "before_agent_start c e h ev =
           (Inr None,
            log_line Warn (lit ''hindsight-memory: auto-recall failed: '' @ String_err err)
              (h\<lparr>sent := sent h @ [recall_request c p (number_of_rat 1500) None]\<rparr>))"
proof -
  let ?co = "Some \<lparr>tags = None, maxTokens = Some (number_of_rat 1500)\<rparr>"
  have "recall c e h p ?co =
          (Inl err, h\<lparr>sent := sent h @ [recall_request c p (number_of_rat 1500) None]\<rparr>)"
    using assms(3) recall_pair [of c e h p ?co] by simp
  moreover from assms(2) have "p \<noteq> []" by auto
  ultimately show ?thesis
    using assms(1,2) by (simp add: before_agent_start_def)
qed

lemma before_agent_start_answered:
  assumes "prompt ev = Some p" and "10 \<le> length p"
    and "fst (recall c e h p (Some \<lparr>tags = None, maxTokens = Some (number_of_rat 1500)\<rparr>)) =
           Inr v"
  shows "fst (before_agent_start c e h ev) =
           Inr (case results v of
                  None \<Rightarrow> None
                | Some rs \<Rightarrow>
                    if rs = [] then None
                    else Some (lit ''<relevant-memories>\<newline>The following memories may be relevant:\<newline>'' @
                               join (lit ''\<newline>'') (map (\<lambda>r. lit ''- '' @ content r) (take 5 rs)) @
                               lit ''\<newline></relevant-memories>''))"
proof -
  let ?co = "Some \<lparr>tags = None, maxTokens = Some (number_of_rat 1500)\<rparr>"
  have "recall c e h p ?co =
          (Inr v, h\<lparr>sent := sent h @ [recall_request c p (number_of_rat 1500) None]\<rparr>)"
    using assms(3) recall_pair [of c e h p ?co] by simp
  moreover from assms(2) have "p \<noteq> []" by auto
  ultimately show ?thesis
    using assms(1,2) by (simp add: before_agent_start_def Let_def split: option.splits)
qed

lemma agent_end_skipped:
  assumes "\<not> success ev \<or> messages ev = None \<or> messages ev = Some []"
  shows "agent_end c e h ev = (Inr (), h)"
  using assms by (auto simp: agent_end_def)

lemma agent_end_failed:
  assumes "success ev" and "messages ev = Some msgs" and "msgs \<noteq> []"
    and "retain_loop c e h (take 5 (toRetain msgs)) 0 = (Inl err, h')"
  shows "agent_end c e h ev =
           (Inr (),
            log_line Warn (lit ''hindsight-memory: auto-retain failed: '' @ String_err err) h')"
  using assms by (simp add: agent_end_def)

lemma dropWhile_all: "(\<forall>x\<in>set xs. P x) \<Longrightarrow> dropWhile P xs = []"
  by (induction xs) auto

lemma trim_all_space: "(\<forall>ch\<in>set s. is_space ch) \<Longrightarrow> trim s = []"
  by (simp add: trim_def dropWhile_all)

lemma message_texts_user_message:
  "message_texts (user_message s) = (if 10 < length (trim s) then [trim s] else [])"
proof -
  have "lit ''content'' \<noteq> lit ''role''"
    by (simp add: lit_def)
  then show ?thesis
    by (simp add: message_texts_def user_message_def)
qed

lemma lit_eq_Nil: "lit s = [] \<longleftrightarrow> s = []"
  by (simp add: lit_def)

lemma String_err_new_Error:
  "msg \<noteq> [] \<Longrightarrow> String_err (new_Error msg) = lit ''Error: '' @ msg"
  by (simp add: String_err_def new_Error_def lit_eq_Nil lit_append [symmetric])

lemma digits_500: "digits 500 = lit ''500''"
  by code_simp

section \<open>Facts about the auto-retain extraction\<close>

lemma digits_first: "\<exists>d ds. digits n = d # ds \<and> d \<le> 57"
proof (induction n rule: digits.induct)
  case (1 n)
  show ?case
  proof (cases "n < 10")
    case True
    then have "n \<in> {0, 1, 2, 3, 4, 5, 6, 7, 8, 9}" by auto
    then have "(word_of_nat (48 + n) :: jchar) \<le> 57"
      by auto
    with True show ?thesis
      by (subst digits.simps) simp
  next
    case False
    with 1 obtain d ds where "digits (n div 10) = d # ds" "d \<le> 57"
      by blast
    with False show ?thesis
      by (subst digits.simps) simp
  qed
qed

lemma digits_neq_lit:
  assumes "lit k = a # as" and "57 < a"
  shows "digits n \<noteq> lit k"
  using digits_first [of n] assms by auto

lemma key_heads:
  "lit ''role'' = 114 # lit ''ole''"
  "lit ''content'' = 99 # lit ''ontent''"
  "lit ''type'' = 116 # lit ''ype''"
  "lit ''text'' = 116 # lit ''ext''"
  by (simp_all add: lit_def)

lemma key_not_index:
  "digits n \<noteq> lit ''role''" "digits n \<noteq> lit ''content''"
  "digits n \<noteq> lit ''type''" "digits n \<noteq> lit ''text''"
  by (rule digits_neq_lit, rule key_heads, simp)+

lemma key_not_length:
  "lit ''role'' \<noteq> lit ''length''" "lit ''content'' \<noteq> lit ''length''"
  "lit ''type'' \<noteq> lit ''length''" "lit ''text'' \<noteq> lit ''length''"
  by (simp_all add: lit_def)

lemma find_never: "find (\<lambda>i. False) xs = None"
  by (induction xs) auto

lemma get_prop_JArr:
  "get_prop (JArr xs) (lit ''role'') = JUndefined"
  "get_prop (JArr xs) (lit ''type'') = JUndefined"
  by (simp_all add: key_not_length key_not_index find_never)

lemma has_prop_JObj: "has_prop k (JObj kvs) \<longleftrightarrow> map_of kvs k \<noteq> None"
  by (simp add: map_of_eq_None_iff)

lemma get_prop_JObj_eq:
  "get_prop (JObj kvs) k = JStr s \<longleftrightarrow> map_of kvs k = Some (JStr s)"
  by (simp split: option.splits)

lemma block_texts_spec:
  "block_texts b =
     (case text_of_block b of
        None \<Rightarrow> []
      | Some t \<Rightarrow> if 10 < length (trim t) then [trim t] else [])"
proof (cases b)
  case (JObj kvs)
  show ?thesis
  proof (cases "map_of kvs (lit ''type'') = Some (JStr (lit ''text''))")
    case True
    then show ?thesis
      unfolding JObj block_texts_def text_of_block_def
      by (auto simp: has_prop_JObj simp del: has_prop.simps split: option.splits jsvalue.splits)
  next
    case False
    then show ?thesis
      unfolding JObj block_texts_def text_of_block_def
      by (simp add: get_prop_JObj_eq del: get_prop.simps)
  qed
next
  case (JArr xs)
  then show ?thesis
    by (simp add: block_texts_def text_of_block_def get_prop_JArr del: get_prop.simps)
qed (simp_all add: block_texts_def text_of_block_def lit_def)

lemma concat_block_texts:
  "concat (map block_texts bs) =
     map trim (filter (\<lambda>t. 10 < length (trim t)) (List.map_filter text_of_block bs))"
  by (induction bs) (simp_all add: block_texts_spec map_filter_simps split: option.splits)

lemma message_texts_spec:
  "message_texts msg =
     (if is_user_message msg
      then map trim (filter (\<lambda>t. 10 < length (trim t)) (raw_texts msg)) else [])"
proof (cases msg)
  case (JObj kvs)
  show ?thesis
  proof (cases "map_of kvs (lit ''role'') = Some (JStr (lit ''user''))")
    case True
    then show ?thesis
      unfolding JObj message_texts_def is_user_message_def raw_texts_def
      by (simp add: concat_block_texts lit_def split: option.splits jsvalue.splits)
  next
    case False
    then have "get_prop (JObj kvs) (lit ''role'') \<noteq> JStr (lit ''user'')"
      by (simp add: get_prop_JObj_eq del: get_prop.simps)
    with False show ?thesis
      unfolding JObj message_texts_def is_user_message_def
      by (simp del: get_prop.simps)
  qed
next
  case (JArr xs)
  then show ?thesis
    by (simp add: message_texts_def is_user_message_def get_prop_JArr del: get_prop.simps)
qed (simp_all add: message_texts_def is_user_message_def lit_def)

lemma toRetain_spec: "toRetain msgs = spec_candidates msgs"
  unfolding toRetain_def spec_candidates_def user_texts_def
  by (induction msgs) (simp_all add: message_texts_spec)

lemma stored_contents_auto_requests:
  "map stored_contents (auto_requests c e n xs) = map (\<lambda>x. [JStr x]) xs"
  by (induction xs arbitrary: n)
    (simp_all add: auto_requests_Nil auto_requests_Cons auto_request_def
      stored_contents_retain_request)

lemma agent_end_all_succeed:
  assumes "success ev" and "messages ev = Some msgs" and "msgs \<noteq> []"
    and "\<forall>n r. succeeds (fetch_retain e n r)"
  shows "issued h (snd (agent_end c e h ev)) =
           auto_requests c e (length (sent h)) (take 5 (toRetain msgs))"
  using assms
  by (simp add: agent_end_def retain_loop_all_succeed [OF assms(4)] issued_def sent_log_line)

lemma trim_literals:
  "trim (lit ''  I prefer dark mode  '') = lit ''I prefer dark mode''"
  "trim (lit ''ok'') = lit ''ok''"
  "trim (lit ''My editor is Neovim'') = lit ''My editor is Neovim''"
  "trim (lit ''thanks'') = lit ''thanks''"
  "trim (lit ''I live in Oslo, Norway'') = lit ''I live in Oslo, Norway''"
  "trim (lit ''My cat is called Miso'') = lit ''My cat is called Miso''"
  "trim (lit ''I write Rust at work'') = lit ''I write Rust at work''"
  "trim (lit ''I play chess on weekends'') = lit ''I play chess on weekends''"
  by (simp_all add: trim_def lit_def is_space_def)

lemma length_lit: "length (lit s) = length s"
  by (simp add: lit_def)

lemma conversation_candidates:
  "spec_candidates conversation =
     [lit ''I prefer dark mode'', lit ''My editor is Neovim'', lit ''I live in Oslo, Norway'',
      lit ''My cat is called Miso'', lit ''I write Rust at work'',
      lit ''I play chess on weekends'']"
proof -
  have k: "lit ''role'' \<noteq> lit ''content''" "lit ''type'' \<noteq> lit ''text''"
    "lit ''image'' \<noteq> lit ''text''" "lit ''assistant'' \<noteq> lit ''user''"
    by (simp_all add: lit_def)
  have u: "is_user_message (user_message s)" "raw_texts (user_message s) = [s]" for s
    using k by (simp_all add: is_user_message_def raw_texts_def user_message_def)
  have b: "text_of_block (text_block ''text'' t) = Some t"
    "text_of_block (text_block ''image'' t) = None" for t
    using k by (simp_all add: text_of_block_def text_block_def)
  have "user_texts conversation =
          [lit ''  I prefer dark mode  '', lit ''ok'', lit ''My editor is Neovim'', lit ''thanks'',
           lit ''I live in Oslo, Norway'', lit ''My cat is called Miso'',
           lit ''I write Rust at work'', lit ''I play chess on weekends'']"
    unfolding user_texts_def conversation_def
    using k
    by (simp add: u b) (simp add: is_user_message_def raw_texts_def map_filter_simps b)
  then show ?thesis
    by (simp add: spec_candidates_def trim_literals length_lit)
qed

text \<open>
  A pass of the auto-retain loop in which the first \<open>k\<close> calls of \<open>retain\<close> return and
  the next one throws: the loop ends with that error, after the requests for the first
  \<open>k + 1\<close> candidates.
\<close>

lemma retain_loop_stops_at_failure:
  assumes "k < length xs"
    and "\<forall>i<k. \<exists>v.
           fst (retain c e
                  (h\<lparr>sent := sent h @ auto_requests c e (length (sent h)) (take i xs)\<rparr>)
                  (xs ! i) (Some auto_options)) = Inr v"
    and "fst (retain c e
                (h\<lparr>sent := sent h @ auto_requests c e (length (sent h)) (take k xs)\<rparr>)
                (xs ! k) (Some auto_options)) = Inl err"
  shows "retain_loop c e h xs r =
           (Inl err,
            h\<lparr>sent := sent h @ auto_requests c e (length (sent h)) (take (Suc k) xs)\<rparr>)"
  using assms
proof (induction xs arbitrary: h r k)
  case Nil
  then show ?case by simp
next
  case (Cons x xs)
  let ?h' = "h\<lparr>sent := sent h @ [auto_request c (clock e (length (sent h))) x]\<rparr>"
  have s: "snd (retain c e h x (Some auto_options)) = ?h'"
    by (rule retain_auto_snd)
  have eq: "?h'\<lparr>sent := sent ?h' @ auto_requests c e (length (sent ?h')) ys\<rparr> =
            h\<lparr>sent := sent h @ auto_requests c e (length (sent h)) (x # ys)\<rparr>" for ys
    by (simp add: auto_requests_Cons)
  show ?case
  proof (cases k)
    case 0
    with Cons.prems(3) have "fst (retain c e h x (Some auto_options)) = Inl err"
      by (simp add: auto_requests_Nil)
    with s have "retain c e h x (Some auto_options) = (Inl err, ?h')"
      by (simp add: prod_eq_iff)
    with 0 show ?thesis
      by (simp add: auto_requests_Cons auto_requests_Nil)
  next
    case (Suc j)
    then have "0 < k" by simp
    with Cons.prems(2) obtain v where "fst (retain c e h x (Some auto_options)) = Inr v"
      by (fastforce simp: auto_requests_Nil)
    with s have step: "retain c e h x (Some auto_options) = (Inr v, ?h')"
      by (simp add: prod_eq_iff)
    have "retain_loop c e ?h' xs (r + 1) =
            (Inl err,
             ?h'\<lparr>sent := sent ?h' @ auto_requests c e (length (sent ?h')) (take (Suc j) xs)\<rparr>)"
    proof (rule Cons.IH)
      show "j < length xs"
        using Cons.prems(1) Suc by simp
      show "\<forall>i<j. \<exists>v.
              fst (retain c e
                     (?h'\<lparr>sent := sent ?h' @
                          auto_requests c e (length (sent ?h')) (take i xs)\<rparr>)
                     (xs ! i) (Some auto_options)) = Inr v"
      proof (intro allI impI)
        fix i
        assume "i < j"
        then have "Suc i < k"
          using Suc by simp
        with Cons.prems(2) have "\<exists>v.
           fst (retain c e
                  (h\<lparr>sent := sent h @
                       auto_requests c e (length (sent h)) (take (Suc i) (x # xs))\<rparr>)
                  ((x # xs) ! Suc i) (Some auto_options)) = Inr v"
          by blast
        then show "\<exists>v.
              fst (retain c e
                     (?h'\<lparr>sent := sent ?h' @
                          auto_requests c e (length (sent ?h')) (take i xs)\<rparr>)
                     (xs ! i) (Some auto_options)) = Inr v"
          by (simp only: eq take_Suc_Cons nth_Cons_Suc)
      qed
      from Cons.prems(3) Suc
      show "fst (retain c e
                   (?h'\<lparr>sent := sent ?h' @
                        auto_requests c e (length (sent ?h')) (take j xs)\<rparr>)
                   (xs ! j) (Some auto_options)) = Inl err"
        by (simp only: eq take_Suc_Cons nth_Cons_Suc)
    qed
    with step Suc show ?thesis
      by (simp only: eq retain_loop.simps take_Suc_Cons) simp
  qed
qed

lemma agent_end_stops_at_failure:
  assumes "success ev" and "messages ev = Some msgs" and "msgs \<noteq> []"
    and "xs = take 5 (spec_candidates msgs)" and "k < length xs"
    and "\<forall>i<k. \<exists>v.
           fst (retain c e
                  (h\<lparr>sent := sent h @ auto_requests c e (length (sent h)) (take i xs)\<rparr>)
                  (xs ! i) (Some auto_options)) = Inr v"
    and "fst (retain c e
                (h\<lparr>sent := sent h @ auto_requests c e (length (sent h)) (take k xs)\<rparr>)
                (xs ! k) (Some auto_options)) = Inl err"
  shows "agent_end c e h ev =
           (Inr (),
            h\<lparr>sent := sent h @ auto_requests c e (length (sent h)) (take (Suc k) xs),
              logged := logged h @
                [(Warn, lit ''hindsight-memory: auto-retain failed: '' @ String_err err)]\<rparr>)"
proof -
  from retain_loop_stops_at_failure [OF assms(5,6,7), of 0]
  have "retain_loop c e h (take 5 (toRetain msgs)) 0 =
          (Inl err,
           h\<lparr>sent := sent h @ auto_requests c e (length (sent h)) (take (Suc k) xs)\<rparr>)"
    by (simp only: assms(4) toRetain_spec)
  with assms(1,2,3) show ?thesis
    by (simp add: agent_end_failed log_line_def)
qed

lemma handlers_return:
  "\<exists>r. fst (recall_execute c e h q mt) = Inr r"
  "\<exists>r. fst (retain_execute c e h x ctx tgs) = Inr r"
  "\<exists>r. fst (before_agent_start c e h ev) = Inr r"
  "fst (agent_end c e h ev') = Inr ()"
  by (auto simp: recall_execute_def retain_execute_def before_agent_start_def agent_end_def
      Let_def split: prod.splits sum.splits option.splits)


section \<open>Facts about numbers\<close>

lemma scale2_powi: "scale2 x q = x * 2 powi q"
proof (cases "0 \<le> q")
  case True
  then show ?thesis
    by (simp add: scale2_def power_int_def)
next
  case False
  then have "(2::rat) powi q = inverse (2 ^ nat (- q))"
    by (simp add: power_int_def power_one_over inverse_eq_divide)
  with False show ?thesis
    by (simp add: scale2_def divide_inverse)
qed

lemma scale2_nonneg: "0 \<le> x \<Longrightarrow> 0 \<le> scale2 x q"
  by (simp add: scale2_powi)

lemma scale2_inverse: "scale2 (scale2 x (- q)) q = x"
proof -
  have "(2::rat) powi (- q) * 2 powi q = 1"
    by (simp add: power_int_minus)
  then show ?thesis
    by (simp add: scale2_powi mult.assoc)
qed

lemma scale2_mono: "x \<le> y \<Longrightarrow> scale2 x q \<le> scale2 y q"
  by (simp add: scale2_powi mult_right_mono)

lemma round_half_even_upper: "of_int (round_half_even y) \<le> y + 1/2"
proof -
  let ?n = "\<lfloor>y\<rfloor>"
  have b: "of_int ?n \<le> y" "y < of_int ?n + 1"
    by linarith+
  consider "y - of_int ?n < 1/2" | "1/2 < y - of_int ?n" | "y - of_int ?n = 1/2"
    by linarith
  then show ?thesis
  proof cases
    case 1
    then have "round_half_even y = ?n"
      by (simp add: round_half_even_def Let_def)
    with b show ?thesis by linarith
  next
    case 2
    then have "round_half_even y = ?n + 1"
      by (simp add: round_half_even_def Let_def)
    with b 2 show ?thesis by simp
  next
    case 3
    then have "round_half_even y = ?n \<or> round_half_even y = ?n + 1"
      by (simp add: round_half_even_def Let_def)
    with b 3 show ?thesis by auto
  qed
qed

lemma round_half_even_nonneg: "0 \<le> y \<Longrightarrow> 0 \<le> round_half_even y"
  by (auto simp: round_half_even_def Let_def)

lemma pow2_lower:
  assumes "0 < p"
  shows "(2::rat) powi (bitlen p - 1) \<le> of_int p"
proof -
  from assms have "bitlen p \<noteq> 0"
    by (simp add: bitlen_eq_zero_iff)
  with bitlen_nonneg [of p] have "0 \<le> bitlen p - 1"
    by simp
  then have "(2::rat) powi (bitlen p - 1) = of_int (2 ^ nat (bitlen p - 1))"
    by (simp add: power_int_def)
  also have "\<dots> \<le> of_int p"
    using bitlen_bounds [OF assms] by (simp only: of_int_le_iff)
  finally show ?thesis .
qed

lemma pow2_upper:
  assumes "0 < q"
  shows "of_int q \<le> (2::rat) powi (bitlen q)"
proof -
  have "of_int q \<le> (of_int (2 ^ nat (bitlen q)) :: rat)"
    using bitlen_bounds [OF assms] by (simp only: of_int_le_iff) simp
  also have "\<dots> = 2 powi (bitlen q)"
    using bitlen_nonneg [of q] by (simp add: power_int_def)
  finally show ?thesis .
qed

lemma ilog2_lower:
  assumes "0 < x"
  shows "2 powi ilog2 x \<le> x"
proof -
  obtain p q where pq: "quotient_of x = (p, q)"
    by (cases "quotient_of x")
  then have q: "0 < q" and x: "x = of_int p / of_int q"
    using quotient_of_denom_pos [of x p q] quotient_of_div [of x p q] by simp_all
  with assms have p: "0 < p"
    by (simp add: zero_less_divide_iff)
  let ?d = "bitlen p - bitlen q"
  show ?thesis
  proof (cases "scale2 1 ?d \<le> x")
    case True
    then show ?thesis
      by (simp add: ilog2_def pq scale2_powi)
  next
    case False
    have "(2::rat) powi (?d - 1) = 2 powi (bitlen p - 1) / 2 powi (bitlen q)"
      by (simp add: power_int_diff)
    also have "\<dots> \<le> of_int p / of_int q"
      using pow2_lower [OF p] pow2_upper [OF q] q p by (intro frac_le) simp_all
    finally have "(2::rat) powi (?d - 1) \<le> x"
      by (simp add: x)
    moreover from False have "ilog2 x = ?d - 1"
      by (simp add: ilog2_def pq)
    ultimately show ?thesis
      by simp
  qed
qed

lemma pow2_step:
  assumes "0 < x"
  shows "2 powi max (ilog2 x - 52) (- 1074) \<le> max x 1"
proof (cases "- 1074 \<le> ilog2 x - 52")
  case True
  have "(2::rat) powi (ilog2 x - 52) \<le> 2 powi ilog2 x"
    by (intro power_int_increasing) simp_all
  with ilog2_lower [OF assms] True show ?thesis
    by (simp add: max_def)
next
  case False
  have "(2::rat) powi (- 1074) \<le> 2 powi 0"
    by (intro power_int_increasing) simp_all
  with False show ?thesis
    by (simp add: max_def)
qed

lemma fl_bounded:
  assumes "0 \<le> x" and "x \<le> 10 ^ 20"
  shows "\<exists>y. fl x = Some y \<and> 0 \<le> y \<and> y < 10 ^ 21"
proof (cases "x = 0")
  case True
  then show ?thesis
    by (simp add: fl_def)
next
  case False
  with assms have pos: "0 < x" by simp
  define q where "q = max (ilog2 x - 52) (- 1074)"
  define y where "y = scale2 (of_int (round_half_even (scale2 x (- q)))) q"
  have "0 \<le> scale2 x (- q)"
    using assms(1) by (rule scale2_nonneg)
  then have "0 \<le> y"
    unfolding y_def by (intro scale2_nonneg) (simp add: round_half_even_nonneg)
  have "y \<le> scale2 (scale2 x (- q) + 1/2) q"
    unfolding y_def by (intro scale2_mono round_half_even_upper)
  also have "\<dots> = scale2 (scale2 x (- q)) q + 2 powi q / 2"
    by (simp add: scale2_powi algebra_simps)
  also have "\<dots> = x + 2 powi q / 2"
    by (simp add: scale2_inverse)
  also have "\<dots> \<le> x + max x 1 / 2"
    using pow2_step [OF pos] by (simp add: q_def)
  also have "\<dots> < 10 ^ 21"
    using assms(2) by (simp add: max_def)
  finally have "y < 10 ^ 21" .
  then have "\<not> double_limit \<le> y"
    by (simp add: double_limit_def)
  with False have "fl x = Some y"
    by (simp add: fl_def Let_def q_def y_def)
  with \<open>0 \<le> y\<close> \<open>y < 10 ^ 21\<close> show ?thesis
    by simp
qed

lemma toFixed0_round:
  assumes "0 \<le> y" and "y < 10 ^ 21"
  shows "toFixed0 t (Fin False y) = digits (nat (round y))"
proof -
  have "(let n = \<lfloor>y\<rfloor> in if y - of_int n < 1/2 then n else n + 1) = \<lfloor>y + 1/2\<rfloor>"
  proof (cases "y - of_int \<lfloor>y\<rfloor> < 1/2")
    case True
    then have "\<lfloor>y + 1/2\<rfloor> = \<lfloor>y\<rfloor>"
      by (intro floor_unique) linarith+
    with True show ?thesis
      by (simp add: Let_def)
  next
    case False
    moreover have "y < of_int \<lfloor>y\<rfloor> + 1"
      by linarith
    ultimately have "\<lfloor>y + 1/2\<rfloor> = \<lfloor>y\<rfloor> + 1"
      by (intro floor_unique) simp_all
    with False show ?thesis
      by (simp add: Let_def)
  qed
  with assms show ?thesis
    by (simp add: toFixed0_def round_def)
qed

lemma round_half_even_lower: "y - 1/2 \<le> of_int (round_half_even y)"
proof -
  let ?n = "\<lfloor>y\<rfloor>"
  have b: "of_int ?n \<le> y" "y < of_int ?n + 1"
    by linarith+
  consider "y - of_int ?n < 1/2" | "1/2 < y - of_int ?n" | "y - of_int ?n = 1/2"
    by linarith
  then show ?thesis
  proof cases
    case 1
    then have "round_half_even y = ?n"
      by (simp add: round_half_even_def Let_def)
    with b 1 show ?thesis by simp
  next
    case 2
    then have "round_half_even y = ?n + 1"
      by (simp add: round_half_even_def Let_def)
    with b 2 show ?thesis by simp
  next
    case 3
    then have "round_half_even y = ?n \<or> round_half_even y = ?n + 1"
      by (simp add: round_half_even_def Let_def)
    with b 3 show ?thesis by auto
  qed
qed

lemma ilog2_below_128:
  assumes "0 < x" and "x \<le> 100"
  shows "ilog2 x \<le> 6"
proof (rule ccontr)
  assume "\<not> ilog2 x \<le> 6"
  then have "7 \<le> ilog2 x"
    by simp
  then have "(2::rat) powi 7 \<le> 2 powi ilog2 x"
    by (intro power_int_increasing) simp_all
  also have "\<dots> \<le> x"
    using assms(1) by (rule ilog2_lower)
  finally have "(128::rat) \<le> x"
    by simp
  with assms(2) show False
    by simp
qed

lemma fl_error:
  assumes "0 \<le> x" and "x \<le> 100"
  shows "\<exists>y. fl x = Some y \<and> 0 \<le> y \<and> y < 10 ^ 21 \<and> \<bar>y - x\<bar> \<le> 1 / 2 ^ 47"
proof (cases "x = 0")
  case True
  then show ?thesis
    by (simp add: fl_def)
next
  case False
  with assms have pos: "0 < x" by simp
  define q where "q = max (ilog2 x - 52) (- 1074)"
  define z where "z = scale2 x (- q)"
  define y where "y = scale2 (of_int (round_half_even z)) q"
  from assms have "x \<le> 10 ^ 20"
    by simp
  from fl_bounded [OF assms(1) this] obtain y' where y': "fl x = Some y'" "0 \<le> y'" "y' < 10 ^ 21"
    by blast
  from y'(1) False have "y' = y"
    by (simp add: fl_def Let_def q_def y_def z_def split: if_splits)
  have "q \<le> - 46"
    using ilog2_below_128 [OF pos assms(2)] by (simp add: q_def)
  then have "(2::rat) powi q \<le> 2 powi (- 46)"
    by (intro power_int_increasing) simp_all
  then have p: "(2::rat) powi q \<le> 1 / 2 ^ 46"
    by (simp add: power_int_minus inverse_eq_divide)
  have x: "x = z * 2 powi q"
    using scale2_inverse [of x q] by (simp add: z_def scale2_powi)
  have "y - x = (of_int (round_half_even z) - z) * 2 powi q"
    by (simp add: y_def scale2_powi x algebra_simps)
  moreover have "\<bar>of_int (round_half_even z) - z\<bar> \<le> 1/2"
    using round_half_even_lower [of z] round_half_even_upper [of z] by linarith
  ultimately have "\<bar>y - x\<bar> \<le> 1/2 * 2 powi q"
    by (simp add: abs_mult mult_right_mono)
  also have "\<dots> \<le> 1/2 * (1 / 2 ^ 46)"
    using p by simp
  finally have "\<bar>y - x\<bar> \<le> 1 / 2 ^ 47"
    by simp
  with y' \<open>y' = y\<close> show ?thesis
    by simp
qed

lemma round_stable:
  fixes p y d :: rat
  assumes "\<bar>p - y\<bar> \<le> d" and "\<not> \<bar>y - of_int \<lfloor>y\<rfloor> - 1/2\<bar> \<le> d" and "d \<le> 1/2"
  shows "round p = round y"
proof -
  have b: "of_int \<lfloor>y\<rfloor> \<le> y" "y < of_int \<lfloor>y\<rfloor> + 1"
    by linarith+
  show ?thesis
  proof (cases "y - of_int \<lfloor>y\<rfloor> < 1/2")
    case True
    with assms b have "\<lfloor>p + 1/2\<rfloor> = \<lfloor>y\<rfloor>" "\<lfloor>y + 1/2\<rfloor> = \<lfloor>y\<rfloor>"
      by (intro floor_unique; linarith)+
    then show ?thesis
      by (simp add: round_def)
  next
    case False
    with assms b have "\<lfloor>p + 1/2\<rfloor> = \<lfloor>y\<rfloor> + 1" "\<lfloor>y + 1/2\<rfloor> = \<lfloor>y\<rfloor> + 1"
      by (intro floor_unique; simp; linarith)+
    then show ?thesis
      by (simp add: round_def)
  qed
qed

lemma unit_score_cases:
  assumes "unit_score sc"
  obtains s m where "sc = Fin s m" "0 \<le> m" "m \<le> 1" "value_of sc = m" "s \<longrightarrow> m = 0"
  using assms by (cases sc) (auto simp: unit_score_def)

lemma percent_of_unit_score:
  assumes "unit_score sc"
  shows "\<exists>y. 0 \<le> y \<and> \<bar>y - value_of sc * 100\<bar> \<le> 1 / 2 ^ 47 \<and>
             toFixed0 t (num_mul sc (Fin False 100)) = digits (nat (round y))"
proof -
  from assms obtain s m where sc: "sc = Fin s m" and m: "0 \<le> m" "m \<le> 1" "s \<longrightarrow> m = 0"
    and v: "value_of sc = m"
    by (elim unit_score_cases)
  from m have "0 \<le> m * 100" "m * 100 \<le> 100"
    by simp_all
  from fl_error [OF this] obtain y
    where y: "fl (m * 100) = Some y" "0 \<le> y" "y < 10 ^ 21" "\<bar>y - m * 100\<bar> \<le> 1 / 2 ^ 47"
    by blast
  show ?thesis
  proof (cases s)
    case True
    with m have "m = 0" by simp
    with y(1) have "y = 0"
      by (simp add: fl_def)
    have "round (0::rat) = 0"
      by simp
    with True \<open>m = 0\<close> \<open>y = 0\<close> y(1) v show ?thesis
      by (intro exI [of _ 0]) (simp add: sc toFixed0_def)
  next
    case False
    with y v show ?thesis
      by (intro exI [of _ y]) (simp add: sc toFixed0_round)
  qed
qed

lemma percent_exact:
  assumes "unit_score sc" and "\<not> near_tie (value_of sc * 100)"
  shows "toFixed0 t (num_mul sc (Fin False 100)) = digits (nat (round (value_of sc * 100)))"
proof -
  from percent_of_unit_score [OF assms(1), of t] obtain y
    where y: "\<bar>y - value_of sc * 100\<bar> \<le> 1 / 2 ^ 47"
      "toFixed0 t (num_mul sc (Fin False 100)) = digits (nat (round y))"
    by blast
  have "(1::rat) / 2 ^ 47 \<le> 1/2"
    by simp
  with y(1) assms(2) have "round y = round (value_of sc * 100)"
    unfolding near_tie_def by (intro round_stable [of y _ "1 / 2 ^ 47"])
  with y(2) show ?thesis
    by simp
qed

lemma map_enumerate:
  "map f (enumerate 0 xs) = map (\<lambda>i. f (i, xs ! i)) [0..<length xs]"
  by (rule nth_equalityI) (simp_all add: nth_enumerate_eq)

lemma digits_1: "digits 1 = lit ''1''"
  by code_simp

lemma digits_2: "digits 2 = lit ''2''"
  by code_simp

text \<open>The result of the recall tool in terms of the answer of the service.\<close>

lemma recall_tool_empty:
  assumes "answer (fetch_recall e (length (sent h))
             (recall_request c q (case mt of None \<Rightarrow> Fin False 2000 | Some n \<Rightarrow> n) None)) =
           Some v"
    and "results v = None \<or> results v = Some []"
  shows "fst (recall_execute c e h q mt) =
           Inr (text_result (lit ''No relevant memories found.'')
                  (JObj [(lit ''count'', JNum (Fin False 0))]))"
proof -
  from assms(1) have "fst (recall c e h q (Some \<lparr>tags = None, maxTokens = mt\<rparr>)) = Inr v"
    by (intro recall_answered) (simp add: num_2000 cong: option.case_cong)
  with assms(2) show ?thesis
    by (auto simp: recall_execute_found num_0)
qed

lemma recall_tool_texts:
  assumes "answer (fetch_recall e (length (sent h))
             (recall_request c q (case mt of None \<Rightarrow> Fin False 2000 | Some n \<Rightarrow> n) None)) =
           Some v"
    and "results v = Some rs" and "rs \<noteq> []"
  shows "result_texts (fst (recall_execute c e h q mt)) =
           Some [lit ''Found '' @ digits (length rs) @ lit '' memories:\<newline>\<newline>'' @
                 join (lit ''\<newline>\<newline>'')
                   (map (\<lambda>i. digits (i + 1) @ lit ''. '' @ content (rs ! i) @
                              lit '' (relevance: '' @
                              toFixed0 (number_to_string e)
                                (num_mul (score (rs ! i)) (Fin False 100)) @
                              lit ''%)'')
                      [0..<length rs])]"
proof -
  from assms(1) have "fst (recall c e h q (Some \<lparr>tags = None, maxTokens = mt\<rparr>)) = Inr v"
    by (intro recall_answered) (simp add: num_2000 cong: option.case_cong)
  with assms(2,3) show ?thesis
    by (simp add: recall_execute_found text_result_def result_texts_def map_enumerate
        recall_line_def num_100)
qed

lemma found_answer:
  "answer (fetch_recall (env_of a (found rs)) n r) = Some \<lparr>results = Some rs\<rparr>"
  by (simp add: env_of_def found_def ok_def)

text \<open>
  The rendering at the doubles nearest to 0.045, 0.285 and -0.025, and at the scores of
  the scenarios. The fractions are written in lowest terms.
\<close>

lemma percent_045:
  "toFixed0 t (num_mul (number_of_rat (9/200)) (Fin False 100)) = lit ''5''"
  "round (value_of (number_of_rat (9/200)) * 100) = 4"
  "unit_score (number_of_rat (9/200))"
  by (code_simp, code_simp, code_simp)

lemma percent_285:
  "toFixed0 t (num_mul (number_of_rat (57/200)) (Fin False 100)) = lit ''28''"
  "round ((57/2) :: rat) = 29"
  by (code_simp, code_simp)

lemma percent_negative:
  "toFixed0 t (num_mul (number_of_rat (- (1/40))) (Fin False 100)) = lit ''-3''"
  "round (value_of (num_mul (number_of_rat (- (1/40))) (Fin False 100))) = - 2"
  by (code_simp, code_simp)

lemma unit_scores:
  "unit_score (number_of_rat (9/10))" "\<not> near_tie (value_of (number_of_rat (9/10)) * 100)"
  "unit_score (number_of_rat (3/5))" "\<not> near_tie (value_of (number_of_rat (3/5)) * 100)"
  "unit_score (number_of_rat (873/1000))"
  "\<not> near_tie (value_of (number_of_rat (873/1000)) * 100)"
  by (code_simp, code_simp, code_simp, code_simp, code_simp, code_simp)

lemma spec_percents:
  "digits (nat (round (value_of (number_of_rat (9/10)) * 100))) = lit ''90''"
  "digits (nat (round (value_of (number_of_rat (3/5)) * 100))) = lit ''60''"
  "digits (nat (round (value_of (number_of_rat (873/1000)) * 100))) = lit ''87''"
  "digits 4 = lit ''4''"
  by (code_simp, code_simp, code_simp, code_simp)

section \<open>Requests and credentials\<close>

text \<open>
  C8. When the configured \<open>apiKey\<close> is the empty string, no request carries an
  \<open>Authorization\<close> header: neither the two client calls nor any request issued by a
  tool or a hook.
\<close>

theorem empty_api_key_sends_no_authorization:
  assumes "apiKey c = Some []"
  shows "(\<forall>r\<in>set (issued h (snd (retain c e h x ro))). authorization r = None) \<and>
         (\<forall>r\<in>set (issued h (snd (recall c e h q co))). authorization r = None) \<and>
         (\<forall>r\<in>set (issued h (snd (retain_execute c e h x ctx tgs))). authorization r = None) \<and>
         (\<forall>r\<in>set (issued h (snd (recall_execute c e h q mt))). authorization r = None) \<and>
         (\<forall>r\<in>set (issued h (snd (before_agent_start c e h ev))). authorization r = None) \<and>
         (\<forall>r\<in>set (issued h (snd (agent_end c e h ev'))). authorization r = None)"
proof -
  have a: "authorization (retain_request c y ctx' tgs' now) = None" for y ctx' tgs' now
    using assms by (simp add: authorization_retain_request)
  have b: "authorization (recall_request c y n tgs') = None" for y n tgs'
    using assms by (simp add: authorization_recall_request)
  have 1: "\<forall>r\<in>set (issued h (snd (retain c e h x ro))). authorization r = None"
    by (simp add: issued_retain a)
  have 2: "\<forall>r\<in>set (issued h (snd (recall c e h q co))). authorization r = None"
    by (simp add: issued_recall b)
  have 3: "\<forall>r\<in>set (issued h (snd (retain_execute c e h x ctx tgs))). authorization r = None"
    by (simp add: issued_retain_execute a)
  have 4: "\<forall>r\<in>set (issued h (snd (recall_execute c e h q mt))). authorization r = None"
    by (simp add: issued_recall_execute b)
  have 5: "\<forall>r\<in>set (issued h (snd (before_agent_start c e h ev))). authorization r = None"
    by (cases "prompt ev") (simp_all add: issued_before_agent_start b)
  have 6: "\<forall>r\<in>set (issued h (snd (agent_end c e h ev'))). authorization r = None"
    using issued_agent_end [of ev' h c e] assms
    by (auto simp: authorization_auto_requests)
  from 1 2 3 4 5 6 show ?thesis
    by blast
qed

theorem empty_api_key_sends_no_authorization_witness:
  "apiKey (local_client (Some [])) = Some [] \<and>
   map authorization
     (issued host0
        (snd (retain (local_client (Some [])) (env_of stored db_down) host0
                (lit ''User prefers dark mode'') None))) = [None] \<and>
   map authorization
     (issued host0
        (snd (before_agent_start (local_client (Some [])) (env_of stored db_down) host0
                \<lparr>prompt = Some (lit ''what theme do I like?'')\<rparr>))) = [None]"
proof -
  have k: "apiKey (local_client (Some [])) = Some []"
    by (simp add: local_client_def)
  have l: "length (lit ''what theme do I like?'') = 21"
    by (simp add: lit_def)
  from empty_api_key_sends_no_authorization [OF k, of host0 "env_of stored db_down"
      "lit ''User prefers dark mode''" None _ _ _ _ _
      "\<lparr>prompt = Some (lit ''what theme do I like?'')\<rparr>"]
  show ?thesis
    by (simp add: k l issued_retain issued_before_agent_start)
qed

text \<open>
  C7, as amended. A client \<open>retain\<close> issues one \<open>POST\<close> to
  \<open>{baseUrl}/v1/default/banks/{bankId}/memories\<close> whose body is a batch of one item
  with the time read by the caller; a client \<open>recall\<close> issues one \<open>POST\<close> to
  \<open>.../memories/recall\<close> whose body has the budget \<open>mid\<close> and \<open>max_tokens\<close> equal to
  the caller's value, or 2000 when there is none; and each request carries the header
  \<open>Authorization: Bearer {apiKey}\<close> if and only if a non-empty credential is configured.
\<close>

theorem client_requests:
  "map url (issued h (snd (retain c e h x ro))) =
     [baseUrl c @ lit ''/v1/default/banks/'' @ bankId c @ lit ''/memories''] \<and>
   map http_method (issued h (snd (retain c e h x ro))) = [lit ''POST''] \<and>
   map body (issued h (snd (retain c e h x ro))) =
     [Some (JObj [(lit ''items'',
        JArr [JObj [(lit ''content'', JStr x),
                    (lit ''context'', opt_string (Option.bind ro context)),
                    (lit ''tags'', opt_strings (Option.bind ro tags)),
                    (lit ''timestamp'', JStr (clock e (length (sent h))))]])])] \<and>
   map url (issued h (snd (recall c e h q co))) =
     [baseUrl c @ lit ''/v1/default/banks/'' @ bankId c @ lit ''/memories/recall''] \<and>
   map http_method (issued h (snd (recall c e h q co))) = [lit ''POST''] \<and>
   map body (issued h (snd (recall c e h q co))) =
     [Some (JObj [(lit ''query'', JStr q),
                  (lit ''max_tokens'',
                   JNum (case Option.bind co maxTokens of
                           None \<Rightarrow> Fin False 2000
                         | Some n \<Rightarrow> n)),
                  (lit ''budget'', JStr (lit ''mid'')),
                  (lit ''tags'', opt_strings (Option.bind co tags))])] \<and>
   map authorization (issued h (snd (retain c e h x ro)) @ issued h (snd (recall c e h q co))) =
     replicate 2
       (case apiKey c of
          None \<Rightarrow> None
        | Some k \<Rightarrow> if k = [] then None else Some (lit ''Bearer '' @ k))"
proof -
  have "map authorization
          (issued h (snd (retain c e h x ro)) @ issued h (snd (recall c e h q co))) =
        replicate 2
          (case apiKey c of
             None \<Rightarrow> None
           | Some k \<Rightarrow> if k = [] then None else Some (lit ''Bearer '' @ k))"
    by (simp add: issued_retain issued_recall authorization_retain_request
        authorization_recall_request numeral_2_eq_2)
  moreover have "map body (issued h (snd (recall c e h q co))) =
     [Some (JObj [(lit ''query'', JStr q),
                  (lit ''max_tokens'',
                   JNum (case Option.bind co maxTokens of
                           None \<Rightarrow> Fin False 2000
                         | Some n \<Rightarrow> n)),
                  (lit ''budget'', JStr (lit ''mid'')),
                  (lit ''tags'', opt_strings (Option.bind co tags))])]"
    by (simp add: issued_recall recall_request_def num_2000 cong: option.case_cong)
  ultimately show ?thesis
    by (simp add: issued_retain issued_recall retain_request_def recall_request_def)
qed

theorem client_requests_witness:
  "map authorization
     (issued host0
        (snd (retain (local_client (Some (lit ''s3cret''))) (env_of stored db_down) host0
                (lit ''User prefers dark mode'') None)) @
      issued host0
        (snd (recall (local_client (Some (lit ''s3cret''))) (env_of stored db_down) host0
                (lit ''dark mode'') None))) =
     [Some (lit ''Bearer s3cret''), Some (lit ''Bearer s3cret'')] \<and>
   map body
     (issued host0
        (snd (recall (local_client (Some (lit ''s3cret''))) (env_of stored db_down) host0
                (lit ''dark mode'') None))) =
     [Some (JObj [(lit ''query'', JStr (lit ''dark mode'')),
                  (lit ''max_tokens'', JNum (Fin False 2000)),
                  (lit ''budget'', JStr (lit ''mid'')),
                  (lit ''tags'', JUndefined)])]"
proof -
  have k: "lit ''s3cret'' \<noteq> []"
    by (simp add: lit_def)
  have b: "lit ''Bearer '' @ lit ''s3cret'' = lit ''Bearer s3cret''"
    by (simp add: lit_def)
  from client_requests [of host0 "local_client (Some (lit ''s3cret''))" "env_of stored db_down"
      "lit ''User prefers dark mode''" None "lit ''dark mode''" None]
  show ?thesis
    by (simp add: local_client_def numeral_2_eq_2 k b)
qed

text \<open>
  C7 as stated fails where the configured credential is the empty string: a credential is
  configured, and the request carries no \<open>Authorization\<close> header.
\<close>

theorem authorization_iff_configured_counterexample:
  "apiKey (local_client (Some [])) \<noteq> None \<and>
   map authorization
     (issued host0
        (snd (recall (local_client (Some [])) (env_of stored db_down) host0
                (lit ''dark mode'') None))) = [None]"
  by (simp add: issued_recall authorization_recall_request local_client_def)

section \<open>The retain tool\<close>

text \<open>
  C6. When the store accepts the item, the confirmation of the retain tool quotes the
  content unmodified if it has at most 100 characters, and otherwise its first 100
  characters followed by \<open>...\<close>; in both cases, and also when the store fails, the one
  request issued carries the full content unmodified.
\<close>

theorem retain_tool_echo_and_payload:
  "(answer (fetch_retain e (length (sent h))
           (retain_request c x ctx tgs (clock e (length (sent h))))) = Some v \<longrightarrow>
      result_texts (fst (retain_execute c e h x ctx tgs)) =
        Some [lit ''Stored in memory: '' @ dquote @
              (if length x \<le> 100 then x else take 100 x @ lit ''...'') @ dquote]) \<and>
   map stored_contents (issued h (snd (retain_execute c e h x ctx tgs))) = [[JStr x]]"
proof -
  have "result_texts (fst (retain_execute c e h x ctx tgs)) =
        Some [lit ''Stored in memory: '' @ dquote @
              (if length x \<le> 100 then x else take 100 x @ lit ''...'') @ dquote]"
    if "answer (fetch_retain e (length (sent h))
           (retain_request c x ctx tgs (clock e (length (sent h))))) = Some v"
  proof -
    from that have "fst (retain c e h x (Some \<lparr>tags = tgs, context = ctx\<rparr>)) = Inr v"
      by (intro retain_answered) simp
    then show ?thesis
      by (simp add: retain_execute_stored text_result_def result_texts_def)
  qed
  then show ?thesis
    by (simp add: issued_retain_execute stored_contents_retain_request)
qed

theorem retain_tool_echo_and_payload_witness:
  "result_texts
     (fst (retain_execute (local_client None) (env_of stored db_down) host0
             (lit ''User prefers dark mode'') None (Some [lit ''preference'']))) =
     Some [lit ''Stored in memory: '' @ dquote @ lit ''User prefers dark mode'' @ dquote] \<and>
   result_texts
     (fst (retain_execute (local_client None) (env_of stored db_down) host0
             (replicate 101 0x61) None None)) =
     Some [lit ''Stored in memory: '' @ dquote @ replicate 100 0x61 @ lit ''...'' @ dquote] \<and>
   map stored_contents
     (issued host0
        (snd (retain_execute (local_client None) (env_of stored db_down) host0
                (replicate 101 0x61) None None))) = [[JStr (replicate 101 0x61)]]"
proof -
  have a: "answer (fetch_retain (env_of stored db_down) n r) =
             Some [(lit ''success'', JBool True), (lit ''items_count'', JNum (Fin False 1))]"
    for n r
    by (simp add: env_of_def stored_def ok_def)
  have l: "length (lit ''User prefers dark mode'') = 22"
    by (simp add: lit_def)
  from retain_tool_echo_and_payload [of "env_of stored db_down" host0 "local_client None"
      "lit ''User prefers dark mode''" None "Some [lit ''preference'']"]
    retain_tool_echo_and_payload [of "env_of stored db_down" host0 "local_client None"
      "replicate 101 0x61" None None]
  show ?thesis
    by (simp add: a l)
qed

text \<open>
  C5. The detail of a successful retain tool invocation is
  \<open>{action: "created", memoryIds: response.memory_ids}\<close>, where \<open>response\<close> is what
  the client's \<open>retain\<close> returned. That call is declared to return
  \<open>{success, items_count}\<close>: whenever the response has no property \<open>memory_ids\<close>, as
  every response of the declared type, \<open>memoryIds\<close> is \<open>undefined\<close>.
\<close>

theorem retain_tool_memory_ids_undefined:
  assumes "answer (fetch_retain e (length (sent h))
             (retain_request c x ctx tgs (clock e (length (sent h))))) = Some v"
  shows "result_details (fst (retain_execute c e h x ctx tgs)) =
           Some (JObj [(lit ''action'', JStr (lit ''created'')),
                       (lit ''memoryIds'', get_prop (JObj v) (lit ''memory_ids''))]) \<and>
         (lit ''memory_ids'' \<notin> fst ` set v \<longrightarrow>
            result_details (fst (retain_execute c e h x ctx tgs)) =
              Some (JObj [(lit ''action'', JStr (lit ''created'')),
                          (lit ''memoryIds'', JUndefined)]))"
proof -
  from assms have "fst (retain c e h x (Some \<lparr>tags = tgs, context = ctx\<rparr>)) = Inr v"
    by (intro retain_answered) simp
  then have "result_details (fst (retain_execute c e h x ctx tgs)) =
               Some (JObj [(lit ''action'', JStr (lit ''created'')),
                           (lit ''memoryIds'', get_prop (JObj v) (lit ''memory_ids''))])"
    by (simp add: retain_execute_stored text_result_def result_details_def)
  moreover have "map_of v (lit ''memory_ids'') = None" if "lit ''memory_ids'' \<notin> fst ` set v"
    using that by (simp add: map_of_eq_None_iff)
  ultimately show ?thesis
    by simp
qed

theorem retain_tool_memory_ids_undefined_witness:
  "answer stored = Some [(lit ''success'', JBool True), (lit ''items_count'', JNum (Fin False 1))] \<and>
   result_details
     (fst (retain_execute (local_client None) (env_of stored db_down) host0
             (lit ''User prefers dark mode'') None (Some [lit ''preference'']))) =
     Some (JObj [(lit ''action'', JStr (lit ''created'')), (lit ''memoryIds'', JUndefined)])"
proof -
  have a: "answer (fetch_retain (env_of stored db_down) n r) =
             Some [(lit ''success'', JBool True), (lit ''items_count'', JNum (Fin False 1))]"
    for n r
    by (simp add: env_of_def stored_def ok_def)
  have k: "lit ''memory_ids'' \<noteq> lit ''success''" "lit ''memory_ids'' \<noteq> lit ''items_count''"
    by (simp_all add: lit_def)
  from retain_tool_memory_ids_undefined [of "env_of stored db_down" host0 "local_client None"
      "lit ''User prefers dark mode''" None "Some [lit ''preference'']", OF a]
  show ?thesis
    using k by (simp add: stored_def ok_def)
qed

section \<open>Failure isolation\<close>

text \<open>
  C1. On a status that is not 2xx the client fails with an error whose message holds the
  status code and the raw body text. Whenever the client call of a tool fails, with
  whatever error, the tool returns a result whose text ends with \<open>String(err)\<close> and whose
  detail is \<open>{error: String(err)}\<close>, and logs one warning. Whenever the recall of the
  auto-recall hook fails, the hook returns nothing, logs one warning, and changes nothing
  else. Whenever a \<open>retain\<close> of the auto-retain hook fails, after \<open>k\<close> calls that
  returned, the hook returns nothing and logs one warning and no report; the requests
  issued are those for the first \<open>k + 1\<close> candidates, none after the failing one. And no
  handler throws: on every input each of the four handlers returns.
\<close>

theorem client_failures_are_contained:
  "(fetch (length (sent h))
      \<lparr>url = baseUrl c @ path, http_method = m, headers = request_headers c,
       body = (if truthy b then Some b else None)\<rparr> = Response st (Inr t) js \<and> \<not> ok st \<longrightarrow>
      fst (request c fetch h m path b) =
        Inl (JsError (lit ''Error'')
               (lit ''Hindsight API error ('' @ digits st @ lit ''): '' @ t))) \<and>
   (fst (recall c e h q (Some \<lparr>tags = None, maxTokens = mt\<rparr>)) = Inl err \<longrightarrow>
      recall_execute c e h q mt =
        (Inr (text_result (lit ''Memory recall failed: '' @ String_err err)
                (JObj [(lit ''error'', JStr (String_err err))])),
         h\<lparr>sent := sent h @
               [recall_request c q (case mt of None \<Rightarrow> Fin False 2000 | Some n \<Rightarrow> n) None],
           logged := logged h @
             [(Warn, lit ''hindsight_recall failed: '' @ String_err err)]\<rparr>)) \<and>
   (fst (retain c e h x (Some \<lparr>tags = tgs, context = ctx\<rparr>)) = Inl err \<longrightarrow>
      retain_execute c e h x ctx tgs =
        (Inr (text_result (lit ''Failed to store memory: '' @ String_err err)
                (JObj [(lit ''error'', JStr (String_err err))])),
         h\<lparr>sent := sent h @ [retain_request c x ctx tgs (clock e (length (sent h)))],
           logged := logged h @
             [(Warn, lit ''hindsight_retain failed: '' @ String_err err)]\<rparr>)) \<and>
   (prompt ev = Some p \<and> 10 \<le> length p \<and>
    fst (recall c e h p (Some \<lparr>tags = None, maxTokens = Some (number_of_rat 1500)\<rparr>)) =
      Inl err \<longrightarrow>
      before_agent_start c e h ev =
        (Inr None,
         h\<lparr>sent := sent h @ [recall_request c p (Fin False 1500) None],
           logged := logged h @
             [(Warn, lit ''hindsight-memory: auto-recall failed: '' @ String_err err)]\<rparr>)) \<and>
   (success ev' \<and> messages ev' = Some msgs \<and> msgs \<noteq> [] \<and>
    xs = take 5 (spec_candidates msgs) \<and> k < length xs \<and>
    (\<forall>i<k. \<exists>v.
       fst (retain c e
              (h\<lparr>sent := sent h @ auto_requests c e (length (sent h)) (take i xs)\<rparr>)
              (xs ! i) (Some auto_options)) = Inr v) \<and>
    fst (retain c e
           (h\<lparr>sent := sent h @ auto_requests c e (length (sent h)) (take k xs)\<rparr>)
           (xs ! k) (Some auto_options)) = Inl err \<longrightarrow>
      agent_end c e h ev' =
        (Inr (),
         h\<lparr>sent := sent h @ auto_requests c e (length (sent h)) (take (Suc k) xs),
           logged := logged h @
             [(Warn, lit ''hindsight-memory: auto-retain failed: '' @ String_err err)]\<rparr>)) \<and>
   (\<exists>r. fst (recall_execute c e h q mt) = Inr r) \<and>
   (\<exists>r. fst (retain_execute c e h x ctx tgs) = Inr r) \<and>
   (\<exists>r. fst (before_agent_start c e h ev) = Inr r) \<and>
   fst (agent_end c e h ev') = Inr ()"
proof -
  have 1: "fst (request c fetch h m path b) =
        Inl (JsError (lit ''Error'')
               (lit ''Hindsight API error ('' @ digits st @ lit ''): '' @ t))"
    if "fetch (length (sent h))
      \<lparr>url = baseUrl c @ path, http_method = m, headers = request_headers c,
       body = (if truthy b then Some b else None)\<rparr> = Response st (Inr t) js" "\<not> ok st"
    using that by (simp add: request_result new_Error_def)
  have 2: "recall_execute c e h q mt =
        (Inr (text_result (lit ''Memory recall failed: '' @ String_err err)
                (JObj [(lit ''error'', JStr (String_err err))])),
         h\<lparr>sent := sent h @
               [recall_request c q (case mt of None \<Rightarrow> Fin False 2000 | Some n \<Rightarrow> n) None],
           logged := logged h @
             [(Warn, lit ''hindsight_recall failed: '' @ String_err err)]\<rparr>)"
    if "fst (recall c e h q (Some \<lparr>tags = None, maxTokens = mt\<rparr>)) = Inl err"
  proof -
    from that recall_pair [of c e h q "Some \<lparr>tags = None, maxTokens = mt\<rparr>"]
    have "recall c e h q (Some \<lparr>tags = None, maxTokens = mt\<rparr>) =
            (Inl err,
             h\<lparr>sent := sent h @
                [recall_request c q (case mt of None \<Rightarrow> Fin False 2000 | Some n \<Rightarrow> n) None]\<rparr>)"
      by (simp add: num_2000 cong: option.case_cong)
    then show ?thesis
      by (simp add: recall_execute_def log_line_def)
  qed
  have 3: "retain_execute c e h x ctx tgs =
        (Inr (text_result (lit ''Failed to store memory: '' @ String_err err)
                (JObj [(lit ''error'', JStr (String_err err))])),
         h\<lparr>sent := sent h @ [retain_request c x ctx tgs (clock e (length (sent h)))],
           logged := logged h @
             [(Warn, lit ''hindsight_retain failed: '' @ String_err err)]\<rparr>)"
    if "fst (retain c e h x (Some \<lparr>tags = tgs, context = ctx\<rparr>)) = Inl err"
  proof -
    from that retain_pair [of c e h x "Some \<lparr>tags = tgs, context = ctx\<rparr>"]
    have "retain c e h x (Some \<lparr>tags = tgs, context = ctx\<rparr>) =
            (Inl err,
             h\<lparr>sent := sent h @ [retain_request c x ctx tgs (clock e (length (sent h)))]\<rparr>)"
      by simp
    then show ?thesis
      by (simp add: retain_execute_def log_line_def)
  qed
  have 4: "before_agent_start c e h ev =
        (Inr None,
         h\<lparr>sent := sent h @ [recall_request c p (Fin False 1500) None],
           logged := logged h @
             [(Warn, lit ''hindsight-memory: auto-recall failed: '' @ String_err err)]\<rparr>)"
    if "prompt ev = Some p" "10 \<le> length p"
      "fst (recall c e h p (Some \<lparr>tags = None, maxTokens = Some (number_of_rat 1500)\<rparr>)) =
         Inl err"
    using before_agent_start_failed [OF that] by (simp add: log_line_def num_1500)
  have 5: "agent_end c e h ev' =
        (Inr (),
         h\<lparr>sent := sent h @ auto_requests c e (length (sent h)) (take (Suc k) xs),
           logged := logged h @
             [(Warn, lit ''hindsight-memory: auto-retain failed: '' @ String_err err)]\<rparr>)"
    if "success ev'" "messages ev' = Some msgs" "msgs \<noteq> []"
      "xs = take 5 (spec_candidates msgs)" "k < length xs"
      "\<forall>i<k. \<exists>v.
         fst (retain c e
                (h\<lparr>sent := sent h @ auto_requests c e (length (sent h)) (take i xs)\<rparr>)
                (xs ! i) (Some auto_options)) = Inr v"
      "fst (retain c e
              (h\<lparr>sent := sent h @ auto_requests c e (length (sent h)) (take k xs)\<rparr>)
              (xs ! k) (Some auto_options)) = Inl err"
    using that by (rule agent_end_stops_at_failure)
  from 1 2 3 4 5 handlers_return show ?thesis
    by blast
qed

theorem client_failures_are_contained_witness:
  "fst (request (local_client None) (fetch_retain (outage_after 0)) host0
          (lit ''POST'') (lit ''/v1/default/banks/aletheia/memories'') JNull) =
     Inl (JsError (lit ''Error'') (lit ''Hindsight API error (500): db down'')) \<and>
   retain_execute (local_client None) (outage_after 0) host0
       (lit ''User prefers dark mode'') None None =
     (Inr (text_result (lit ''Failed to store memory: Error: Hindsight API error (500): db down'')
             (JObj [(lit ''error'', JStr (lit ''Error: Hindsight API error (500): db down''))])),
      \<lparr>sent = [retain_request (local_client None) (lit ''User prefers dark mode'') None None
                 (lit ''2026-01-01T00:00:00.000Z'')],
       logged = [(Warn, lit ''hindsight_retain failed: Error: Hindsight API error (500): db down'')]\<rparr>) \<and>
   recall_execute (local_client None) (outage_after 0) host0 (lit ''dark mode'') None =
     (Inr (text_result (lit ''Memory recall failed: Error: Hindsight API error (500): db down'')
             (JObj [(lit ''error'', JStr (lit ''Error: Hindsight API error (500): db down''))])),
      \<lparr>sent = [recall_request (local_client None) (lit ''dark mode'') (Fin False 2000) None],
       logged = [(Warn, lit ''hindsight_recall failed: Error: Hindsight API error (500): db down'')]\<rparr>) \<and>
   before_agent_start (local_client None) (outage_after 0) host0
       \<lparr>prompt = Some (lit ''what theme do I like?'')\<rparr> =
     (Inr None,
      \<lparr>sent = [recall_request (local_client None) (lit ''what theme do I like?'')
                 (Fin False 1500) None],
       logged = [(Warn, lit ''hindsight-memory: auto-recall failed: Error: Hindsight API error (500): db down'')]\<rparr>) \<and>
   agent_end (local_client None) (outage_after 1) host0
       \<lparr>success = True,
        messages = Some [user_message (lit ''I prefer dark mode in all my editors''),
                         user_message (lit ''My cat is called Miso''),
                         user_message (lit ''I write Rust at work'')]\<rparr> =
     (Inr (),
      \<lparr>sent = [auto_request (local_client None) (lit ''2026-01-01T00:00:00.000Z'')
                 (lit ''I prefer dark mode in all my editors''),
               auto_request (local_client None) (lit ''2026-01-01T00:00:00.000Z'')
                 (lit ''My cat is called Miso'')],
       logged = [(Warn, lit ''hindsight-memory: auto-retain failed: Error: Hindsight API error (500): db down'')]\<rparr>)"
proof -
  let ?c = "local_client None"
  let ?e = "outage_after 0"
  let ?e1 = "outage_after 1"
  let ?err = "new_Error (lit ''Hindsight API error (500): db down'')"
  let ?msgs = "[user_message (lit ''I prefer dark mode in all my editors''),
                user_message (lit ''My cat is called Miso''),
                user_message (lit ''I write Rust at work'')]"
  let ?xs = "[lit ''I prefer dark mode in all my editors'', lit ''My cat is called Miso'',
              lit ''I write Rust at work'']"
  let ?ev = "\<lparr>success = True, messages = Some ?msgs\<rparr>"
  have m: "lit ''Hindsight API error ('' @ digits 500 @ lit ''): '' @ lit ''db down'' =
           lit ''Hindsight API error (500): db down''"
    by (simp add: digits_500 lit_append [symmetric])
  have s: "String_err ?err = lit ''Error: Hindsight API error (500): db down''"
    by (simp add: String_err_new_Error lit_eq_Nil lit_append [symmetric])
  have t: "lit ''Failed to store memory: '' @ lit ''Error: Hindsight API error (500): db down'' =
             lit ''Failed to store memory: Error: Hindsight API error (500): db down''"
    "lit ''Memory recall failed: '' @ lit ''Error: Hindsight API error (500): db down'' =
       lit ''Memory recall failed: Error: Hindsight API error (500): db down''"
    "lit ''hindsight_retain failed: '' @ lit ''Error: Hindsight API error (500): db down'' =
       lit ''hindsight_retain failed: Error: Hindsight API error (500): db down''"
    "lit ''hindsight_recall failed: '' @ lit ''Error: Hindsight API error (500): db down'' =
       lit ''hindsight_recall failed: Error: Hindsight API error (500): db down''"
    "lit ''hindsight-memory: auto-recall failed: '' @ lit ''Error: Hindsight API error (500): db down'' =
       lit ''hindsight-memory: auto-recall failed: Error: Hindsight API error (500): db down''"
    "lit ''hindsight-memory: auto-retain failed: '' @ lit ''Error: Hindsight API error (500): db down'' =
       lit ''hindsight-memory: auto-retain failed: Error: Hindsight API error (500): db down''"
    by (simp_all add: lit_append [symmetric])
  have f: "fetch_retain ?e n r =
             Response 500 (Inr (lit ''db down''))
               (Inl (JsError (lit ''SyntaxError'')
                       (lit ''Unexpected token d in JSON at position 0'')))" for n r
    by (simp add: outage_after_def db_down_def)
  have r0: "fst (retain ?c ?e host0 y ro) = Inl ?err" for y ro
    by (simp add: retain_fst outage_after_def db_down_def ok_def m)
  have r1: "fst (retain ?c (outage_after n) h' y ro) =
              (if length (sent h') < n
               then Inr [(lit ''success'', JBool True), (lit ''items_count'', JNum (Fin False 1))]
               else Inl ?err)" for n h' y ro
    by (simp add: retain_fst outage_after_def stored_def db_down_def ok_def m)
  have r2: "fst (recall ?c ?e host0 y co) = Inl ?err" for y co
    by (simp add: recall_fst outage_after_def db_down_def ok_def m)
  have p: "length (lit ''what theme do I like?'') = 21"
    by (simp add: lit_def)
  have c: "clock (outage_after j) n = lit ''2026-01-01T00:00:00.000Z''" for j n
    by (simp add: outage_after_def)
  have u: "trim (lit ''I prefer dark mode in all my editors'') =
             lit ''I prefer dark mode in all my editors''"
    "trim (lit ''My cat is called Miso'') = lit ''My cat is called Miso''"
    "trim (lit ''I write Rust at work'') = lit ''I write Rust at work''"
    by (simp_all add: trim_def lit_def is_space_def)
  have x: "take 5 (spec_candidates ?msgs) = ?xs"
    by (simp add: toRetain_spec [symmetric] toRetain_def message_texts_user_message u length_lit)
  have h1: "\<forall>i<1. \<exists>v.
       fst (retain ?c ?e1
              (host0\<lparr>sent := sent host0 @
                   auto_requests ?c ?e1 (length (sent host0)) (take i ?xs)\<rparr>)
              (?xs ! i) (Some auto_options)) = Inr v"
    by (simp add: r1 host0_def auto_requests_Nil)
  have h2: "fst (retain ?c ?e1
           (host0\<lparr>sent := sent host0 @
                auto_requests ?c ?e1 (length (sent host0)) (take 1 ?xs)\<rparr>)
           (?xs ! 1) (Some auto_options)) = Inl ?err"
    by (simp add: r1 host0_def auto_requests_Nil auto_requests_Cons)
  have a: "agent_end ?c ?e1 host0 ?ev =
        (Inr (),
         host0\<lparr>sent := sent host0 @
               auto_requests ?c ?e1 (length (sent host0)) (take (Suc 1) ?xs),
           logged := logged host0 @
             [(Warn, lit ''hindsight-memory: auto-retain failed: '' @ String_err ?err)]\<rparr>)"
    using client_failures_are_contained [where c = ?c and e = ?e1 and h = host0
        and ev' = ?ev and msgs = ?msgs and xs = ?xs and k = 1 and err = ?err
        and fetch = "fetch_retain ?e1" and path = "[]" and m = "[]" and b = JNull and st = 0
        and t = "[]" and js = "Inl ?err" and q = "[]" and mt = None and x = "[]"
        and tgs = None and ctx = None and ev = "\<lparr>prompt = None\<rparr>" and p = "[]"] x h1 h2
    by simp
  from client_failures_are_contained [where fetch = "fetch_retain ?e" and h = host0
      and c = ?c and path = "lit ''/v1/default/banks/aletheia/memories''"
      and m = "lit ''POST''" and b = JNull and st = 500 and t = "lit ''db down''"
      and js = "Inl (JsError (lit ''SyntaxError'') (lit ''Unexpected token d in JSON at position 0''))"
      and e = ?e and q = "lit ''dark mode''" and mt = None and err = ?err
      and x = "lit ''User prefers dark mode''" and ctx = None and tgs = None
      and ev = "\<lparr>prompt = Some (lit ''what theme do I like?'')\<rparr>"
      and p = "lit ''what theme do I like?''"]
  have "fst (request ?c (fetch_retain ?e) host0 (lit ''POST'')
               (lit ''/v1/default/banks/aletheia/memories'') JNull) =
          Inl (JsError (lit ''Error'') (lit ''Hindsight API error (500): db down'')) \<and>
        retain_execute ?c ?e host0 (lit ''User prefers dark mode'') None None =
          (Inr (text_result (lit ''Failed to store memory: '' @ String_err ?err)
                  (JObj [(lit ''error'', JStr (String_err ?err))])),
           host0\<lparr>sent := sent host0 @
                 [retain_request ?c (lit ''User prefers dark mode'') None None
                    (clock ?e (length (sent host0)))],
             logged := logged host0 @
               [(Warn, lit ''hindsight_retain failed: '' @ String_err ?err)]\<rparr>) \<and>
        recall_execute ?c ?e host0 (lit ''dark mode'') None =
          (Inr (text_result (lit ''Memory recall failed: '' @ String_err ?err)
                  (JObj [(lit ''error'', JStr (String_err ?err))])),
           host0\<lparr>sent := sent host0 @
                 [recall_request ?c (lit ''dark mode'') (Fin False 2000) None],
             logged := logged host0 @
               [(Warn, lit ''hindsight_recall failed: '' @ String_err ?err)]\<rparr>) \<and>
        before_agent_start ?c ?e host0 \<lparr>prompt = Some (lit ''what theme do I like?'')\<rparr> =
          (Inr None,
           host0\<lparr>sent := sent host0 @
                 [recall_request ?c (lit ''what theme do I like?'') (Fin False 1500) None],
             logged := logged host0 @
               [(Warn, lit ''hindsight-memory: auto-recall failed: '' @ String_err ?err)]\<rparr>)"
    by (simp add: f ok_def m r0 r2 p)
  with a show ?thesis
    by (simp add: s t c host0_def auto_requests_Cons auto_requests_Nil)
qed

section \<open>The auto-recall hook\<close>

text \<open>
  C3. The handler of a turn-starting event issues no request and returns nothing when the
  prompt is absent or shorter than 10 characters. Otherwise it issues exactly one recall,
  for the prompt, with \<open>max_tokens\<close> 1500; when the service answers with no results it
  returns nothing; when it answers with results, it returns as \<open>prependContext\<close> the
  delimited block whose body is one line \<open>- {content}\<close> for each of the first 5 results,
  in the order received.
\<close>

theorem auto_recall_hook:
  "(prompt ev = None \<longrightarrow> before_agent_start c e h ev = (Inr None, h)) \<and>
   (prompt ev = Some p \<and> length p < 10 \<longrightarrow> before_agent_start c e h ev = (Inr None, h)) \<and>
   (prompt ev = Some p \<and> 10 \<le> length p \<longrightarrow>
      issued h (snd (before_agent_start c e h ev)) = [recall_request c p (Fin False 1500) None] \<and>
      map body (issued h (snd (before_agent_start c e h ev))) =
        [Some (JObj [(lit ''query'', JStr p),
                     (lit ''max_tokens'', JNum (Fin False 1500)),
                     (lit ''budget'', JStr (lit ''mid'')),
                     (lit ''tags'', JUndefined)])] \<and>
      (answer (fetch_recall e (length (sent h)) (recall_request c p (Fin False 1500) None)) =
         Some v \<longrightarrow>
       fst (before_agent_start c e h ev) =
         Inr (case results v of
                None \<Rightarrow> None
              | Some rs \<Rightarrow>
                  if rs = [] then None
                  else Some (lit ''<relevant-memories>\<newline>The following memories may be relevant:\<newline>'' @
                             join (lit ''\<newline>'') (map (\<lambda>r. lit ''- '' @ content r) (take 5 rs)) @
                             lit ''\<newline></relevant-memories>''))))"
proof -
  let ?co = "Some \<lparr>tags = None, maxTokens = Some (number_of_rat 1500)\<rparr>"
  have i: "issued h (snd (before_agent_start c e h ev)) =
             [recall_request c p (Fin False 1500) None]"
    if "prompt ev = Some p" "10 \<le> length p"
    using that by (simp add: issued_before_agent_start num_1500)
  have r: "fst (before_agent_start c e h ev) =
         Inr (case results v of
                None \<Rightarrow> None
              | Some rs \<Rightarrow>
                  if rs = [] then None
                  else Some (lit ''<relevant-memories>\<newline>The following memories may be relevant:\<newline>'' @
                             join (lit ''\<newline>'') (map (\<lambda>r. lit ''- '' @ content r) (take 5 rs)) @
                             lit ''\<newline></relevant-memories>''))"
    if "prompt ev = Some p" "10 \<le> length p"
      "answer (fetch_recall e (length (sent h)) (recall_request c p (Fin False 1500) None)) =
         Some v"
  proof -
    from that(3) have "fst (recall c e h p ?co) = Inr v"
      by (intro recall_answered) (simp add: num_1500)
    with that(1,2) show ?thesis
      by (rule before_agent_start_answered)
  qed
  from i r show ?thesis
    by (simp add: before_agent_start_skipped recall_request_def)
qed

theorem auto_recall_hook_witness:
  "before_agent_start (local_client None)
       (env_of stored
          (found [memory ''dark mode'' (9/10), memory ''likes tea'' (8/10),
                  memory ''lives in Oslo'' (7/10), memory ''owns a cat'' (6/10),
                  memory ''codes in Rust'' (5/10), memory ''plays chess'' (4/10)]))
       host0 \<lparr>prompt = None\<rparr> = (Inr None, host0) \<and>
   before_agent_start (local_client None)
       (env_of stored
          (found [memory ''dark mode'' (9/10), memory ''likes tea'' (8/10),
                  memory ''lives in Oslo'' (7/10), memory ''owns a cat'' (6/10),
                  memory ''codes in Rust'' (5/10), memory ''plays chess'' (4/10)]))
       host0 \<lparr>prompt = Some (lit ''hello'')\<rparr> = (Inr None, host0) \<and>
   issued host0
     (snd (before_agent_start (local_client None)
       (env_of stored
          (found [memory ''dark mode'' (9/10), memory ''likes tea'' (8/10),
                  memory ''lives in Oslo'' (7/10), memory ''owns a cat'' (6/10),
                  memory ''codes in Rust'' (5/10), memory ''plays chess'' (4/10)]))
       host0 \<lparr>prompt = Some (lit ''what theme do I like?'')\<rparr>)) =
     [recall_request (local_client None) (lit ''what theme do I like?'') (Fin False 1500) None] \<and>
   fst (before_agent_start (local_client None)
       (env_of stored
          (found [memory ''dark mode'' (9/10), memory ''likes tea'' (8/10),
                  memory ''lives in Oslo'' (7/10), memory ''owns a cat'' (6/10),
                  memory ''codes in Rust'' (5/10), memory ''plays chess'' (4/10)]))
       host0 \<lparr>prompt = Some (lit ''what theme do I like?'')\<rparr>) =
     Inr (Some (lit ''<relevant-memories>\<newline>The following memories may be relevant:\<newline>- dark mode\<newline>- likes tea\<newline>- lives in Oslo\<newline>- owns a cat\<newline>- codes in Rust\<newline></relevant-memories>'')) \<and>
   fst (before_agent_start (local_client None) (env_of stored (found [])) host0
          \<lparr>prompt = Some (lit ''what theme do I like?'')\<rparr>) = Inr None"
proof -
  let ?rs = "[memory ''dark mode'' (9/10), memory ''likes tea'' (8/10),
              memory ''lives in Oslo'' (7/10), memory ''owns a cat'' (6/10),
              memory ''codes in Rust'' (5/10), memory ''plays chess'' (4/10)]"
  have a: "answer (fetch_recall (env_of stored (found rs)) n r) = Some \<lparr>results = Some rs\<rparr>"
    for rs n r
    by (simp add: env_of_def found_def ok_def)
  have l: "length (lit ''hello'') = 5" "length (lit ''what theme do I like?'') = 21"
    by (simp_all add: lit_def)
  have c: "content (memory t sc) = lit t" for t sc
    by (simp add: memory_def)
  from auto_recall_hook [of "\<lparr>prompt = None\<rparr>" "local_client None"
         "env_of stored (found ?rs)" host0 "lit ''hello''" "\<lparr>results = Some ?rs\<rparr>"]
    auto_recall_hook [of "\<lparr>prompt = Some (lit ''hello'')\<rparr>" "local_client None"
         "env_of stored (found ?rs)" host0 "lit ''hello''" "\<lparr>results = Some ?rs\<rparr>"]
    auto_recall_hook [of "\<lparr>prompt = Some (lit ''what theme do I like?'')\<rparr>"
         "local_client None" "env_of stored (found ?rs)" host0
         "lit ''what theme do I like?''" "\<lparr>results = Some ?rs\<rparr>"]
    auto_recall_hook [of "\<lparr>prompt = Some (lit ''what theme do I like?'')\<rparr>"
         "local_client None" "env_of stored (found [])" host0
         "lit ''what theme do I like?''" "\<lparr>results = Some []\<rparr>"]
  show ?thesis
    by (simp add: a l c lit_append [symmetric])
qed

section \<open>Where the length thresholds are measured\<close>

text \<open>
  C10. The gate of the auto-recall hook compares the length of the prompt as it is: a
  prompt of 10 or more characters issues one recall for it, also when every character is
  white space. The auto-retain pipeline compares the length of the trimmed text: a user
  message or a text block yields its trimmed text when that is longer than 10 characters
  and nothing otherwise, so white space alone yields nothing.
\<close>

theorem prompt_gate_is_untrimmed:
  "(prompt ev = Some p \<and> 10 \<le> length p \<longrightarrow>
      issued h (snd (before_agent_start c e h ev)) =
        [recall_request c p (Fin False 1500) None]) \<and>
   message_texts (user_message s) = (if 10 < length (trim s) then [trim s] else []) \<and>
   block_texts (JObj [(lit ''type'', JStr (lit ''text'')), (lit ''text'', JStr s)]) =
     (if 10 < length (trim s) then [trim s] else []) \<and>
   ((\<forall>ch\<in>set s. is_space ch) \<longrightarrow>
      message_texts (user_message s) = [] \<and>
      block_texts (JObj [(lit ''type'', JStr (lit ''text'')), (lit ''text'', JStr s)]) = [])"
proof -
  have k: "lit ''text'' \<noteq> lit ''type''"
    by (simp add: lit_def)
  have b: "block_texts (JObj [(lit ''type'', JStr (lit ''text'')), (lit ''text'', JStr s)]) =
             (if 10 < length (trim s) then [trim s] else [])"
    using k by (simp add: block_texts_def)
  show ?thesis
    by (simp add: issued_before_agent_start num_1500 message_texts_user_message b
        trim_all_space)
qed

theorem prompt_gate_is_untrimmed_witness:
  "list_all is_space (replicate 10 0x20) \<and>
   issued host0
     (snd (before_agent_start (local_client None) (env_of stored (found [])) host0
             \<lparr>prompt = Some (replicate 10 0x20)\<rparr>)) =
     [recall_request (local_client None) (replicate 10 0x20) (Fin False 1500) None] \<and>
   message_texts (user_message (replicate 10 0x20)) = [] \<and>
   message_texts (user_message (lit ''   I prefer dark mode   '')) = [lit ''I prefer dark mode'']"
proof -
  have w: "is_space 0x20"
    by (simp add: is_space_def)
  have t: "trim (lit ''   I prefer dark mode   '') = lit ''I prefer dark mode''"
    by (simp add: trim_def lit_def is_space_def)
  have l: "length (lit ''I prefer dark mode'') = 18"
    by (simp add: lit_def)
  have b: "trim (replicate 10 0x20) = []"
    using w by (simp add: trim_all_space)
  from prompt_gate_is_untrimmed [of "\<lparr>prompt = Some (replicate 10 0x20)\<rparr>"
         "replicate 10 0x20" host0 "local_client None" "env_of stored (found [])"
         "replicate 10 0x20"]
    prompt_gate_is_untrimmed [of "\<lparr>prompt = Some (replicate 10 0x20)\<rparr>"
         "replicate 10 0x20" host0 "local_client None" "env_of stored (found [])"
         "lit ''   I prefer dark mode   ''"]
  show ?thesis
    by (simp add: w t l b list_all_iff)
qed

section \<open>The auto-retain hook\<close>

text \<open>
  C2. The handler of a turn-ended event does nothing at all when the turn did not
  succeed or there are no messages. Otherwise the requests it issues are retain requests
  for the candidates of the specification (a message with role \<open>user\<close>; its string
  content, or the text of each of its blocks of type \<open>text\<close>; kept when the trimmed
  length exceeds 10), in their order, stopping at the first failure and after the fifth
  candidate: when every retain succeeds they are exactly the first 5 candidates. Each
  request is a \<open>POST\<close> of one item with the tags \<open>conversation\<close> and \<open>auto\<close> and the
  context \<open>auto-captured from conversation\<close>.
\<close>

theorem auto_retain_hook:
  "(\<not> success ev \<or> messages ev = None \<or> messages ev = Some [] \<longrightarrow>
      agent_end c e h ev = (Inr (), h)) \<and>
   (success ev \<and> messages ev = Some msgs \<and> msgs \<noteq> [] \<longrightarrow>
      (\<exists>k\<le>min 5 (length (spec_candidates msgs)).
         issued h (snd (agent_end c e h ev)) =
           auto_requests c e (length (sent h)) (take k (spec_candidates msgs))) \<and>
      ((\<forall>n r. succeeds (fetch_retain e n r)) \<longrightarrow>
         issued h (snd (agent_end c e h ev)) =
           auto_requests c e (length (sent h)) (take 5 (spec_candidates msgs)))) \<and>
   map (\<lambda>r. (http_method r, url r, body r)) (auto_requests c e n xs) =
     map (\<lambda>(i, x).
            (lit ''POST'', baseUrl c @ lit ''/v1/default/banks/'' @ bankId c @ lit ''/memories'',
             Some (JObj [(lit ''items'',
               JArr [JObj [(lit ''content'', JStr x),
                           (lit ''context'', JStr (lit ''auto-captured from conversation'')),
                           (lit ''tags'', JArr [JStr (lit ''conversation''), JStr (lit ''auto'')]),
                           (lit ''timestamp'', JStr (clock e i))]])])))
       (enumerate n xs)"
proof -
  have 1: "\<exists>k\<le>min 5 (length (spec_candidates msgs)).
         issued h (snd (agent_end c e h ev)) =
           auto_requests c e (length (sent h)) (take k (spec_candidates msgs))"
    if "messages ev = Some msgs"
    using issued_agent_end [of ev h c e] that by (simp add: toRetain_spec)
  have 2: "issued h (snd (agent_end c e h ev)) =
           auto_requests c e (length (sent h)) (take 5 (spec_candidates msgs))"
    if "success ev" "messages ev = Some msgs" "msgs \<noteq> []"
      "\<forall>n r. succeeds (fetch_retain e n r)"
    using agent_end_all_succeed [OF that] by (simp add: toRetain_spec)
  have 3: "map (\<lambda>r. (http_method r, url r, body r)) (auto_requests c e n xs) =
     map (\<lambda>(i, x).
            (lit ''POST'', baseUrl c @ lit ''/v1/default/banks/'' @ bankId c @ lit ''/memories'',
             Some (JObj [(lit ''items'',
               JArr [JObj [(lit ''content'', JStr x),
                           (lit ''context'', JStr (lit ''auto-captured from conversation'')),
                           (lit ''tags'', JArr [JStr (lit ''conversation''), JStr (lit ''auto'')]),
                           (lit ''timestamp'', JStr (clock e i))]])])))
       (enumerate n xs)"
    by (simp add: auto_requests_def auto_request_def retain_request_def split_def)
  from 1 2 3 show ?thesis
    using agent_end_skipped [of ev c e h] by blast
qed

theorem auto_retain_hook_witness:
  "agent_end (local_client None) (env_of stored db_down) host0
       \<lparr>success = False, messages = Some conversation\<rparr> = (Inr (), host0) \<and>
   agent_end (local_client None) (env_of stored db_down) host0
       \<lparr>success = True, messages = Some []\<rparr> = (Inr (), host0) \<and>
   issued host0
     (snd (agent_end (local_client None) (env_of stored db_down) host0
        \<lparr>success = True, messages = Some conversation\<rparr>)) =
     auto_requests (local_client None) (env_of stored db_down) 0
       [lit ''I prefer dark mode'', lit ''My editor is Neovim'', lit ''I live in Oslo, Norway'',
        lit ''My cat is called Miso'', lit ''I write Rust at work''] \<and>
   map stored_contents
     (issued host0
        (snd (agent_end (local_client None) (env_of stored db_down) host0
           \<lparr>success = True, messages = Some conversation\<rparr>))) =
     [[JStr (lit ''I prefer dark mode'')], [JStr (lit ''My editor is Neovim'')],
      [JStr (lit ''I live in Oslo, Norway'')], [JStr (lit ''My cat is called Miso'')],
      [JStr (lit ''I write Rust at work'')]]"
proof -
  let ?c = "local_client None"
  let ?e = "env_of stored db_down"
  have s: "\<forall>n r. succeeds (fetch_retain ?e n r)"
    by (simp add: env_of_def stored_def ok_def)
  have n: "conversation \<noteq> []"
    by (simp add: conversation_def)
  have z: "sent host0 = []"
    by (simp add: host0_def)
  from auto_retain_hook [of "\<lparr>success = False, messages = Some conversation\<rparr>" ?c ?e host0
         conversation 0 "[]"]
    auto_retain_hook [of "\<lparr>success = True, messages = Some []\<rparr>" ?c ?e host0
         conversation 0 "[]"]
    auto_retain_hook [of "\<lparr>success = True, messages = Some conversation\<rparr>" ?c ?e host0
         conversation 0 "[]"]
  show ?thesis
    by (simp add: s n z conversation_candidates stored_contents_auto_requests)
qed

section \<open>What is stored\<close>

text \<open>
  C9. Every request of the auto-retain pipeline stores the trimmed text of a candidate:
  its item's content is \<open>trim t\<close> for a text \<open>t\<close> of a user message, never a text that
  still has leading or trailing white space. The request of the retain tool stores the
  content it was given, unmodified.
\<close>

theorem auto_retain_stores_trimmed_text:
  "(\<forall>r\<in>set (issued h (snd (agent_end c e h ev))).
      \<exists>t\<in>set (user_texts (case messages ev of None \<Rightarrow> [] | Some msgs \<Rightarrow> msgs)).
        10 < length (trim t) \<and> stored_contents r = [JStr (trim t)]) \<and>
   map stored_contents (issued h (snd (retain_execute c e h x ctx tgs))) = [[JStr x]]"
proof -
  let ?msgs = "case messages ev of None \<Rightarrow> [] | Some msgs \<Rightarrow> msgs"
  have "\<exists>t\<in>set (user_texts ?msgs). 10 < length (trim t) \<and> stored_contents r = [JStr (trim t)]"
    if r: "r \<in> set (issued h (snd (agent_end c e h ev)))" for r
  proof -
    from issued_agent_end [of ev h c e] obtain k
      where "issued h (snd (agent_end c e h ev)) =
               auto_requests c e (length (sent h)) (take k (toRetain ?msgs))"
      by blast
    with r have "stored_contents r \<in>
                   set (map stored_contents
                          (auto_requests c e (length (sent h)) (take k (toRetain ?msgs))))"
      by simp
    then obtain y where y: "y \<in> set (take k (toRetain ?msgs))" "stored_contents r = [JStr y]"
      by (auto simp: stored_contents_auto_requests)
    from y(1) have "y \<in> set (spec_candidates ?msgs)"
      by (auto simp: toRetain_spec dest: in_set_takeD)
    then obtain t where "t \<in> set (user_texts ?msgs)" "10 < length (trim t)" "y = trim t"
      by (auto simp: spec_candidates_def)
    with y(2) show ?thesis
      by blast
  qed
  then show ?thesis
    by (simp add: issued_retain_execute stored_contents_retain_request)
qed

theorem auto_retain_stores_trimmed_text_witness:
  "user_texts [user_message (lit ''  I prefer dark mode  '')] = [lit ''  I prefer dark mode  ''] \<and>
   map stored_contents
     (issued host0
        (snd (agent_end (local_client None) (env_of stored db_down) host0
           \<lparr>success = True, messages = Some [user_message (lit ''  I prefer dark mode  '')]\<rparr>))) =
     [[JStr (lit ''I prefer dark mode'')]] \<and>
   map stored_contents
     (issued host0
        (snd (retain_execute (local_client None) (env_of stored db_down) host0
                (lit ''  I prefer dark mode  '') None None))) =
     [[JStr (lit ''  I prefer dark mode  '')]]"
proof -
  let ?c = "local_client None"
  let ?e = "env_of stored db_down"
  let ?ev = "\<lparr>success = True, messages = Some [user_message (lit ''  I prefer dark mode  '')]\<rparr>"
  have s: "\<forall>n r. succeeds (fetch_retain ?e n r)"
    by (simp add: env_of_def stored_def ok_def)
  have k: "lit ''role'' \<noteq> lit ''content''"
    by (simp add: lit_def)
  have u: "user_texts [user_message (lit ''  I prefer dark mode  '')] =
             [lit ''  I prefer dark mode  '']"
    using k by (simp add: user_texts_def is_user_message_def raw_texts_def user_message_def)
  have i: "issued host0 (snd (agent_end ?c ?e host0 ?ev)) =
             auto_requests ?c ?e (length (sent host0)) [lit ''I prefer dark mode'']"
    using agent_end_all_succeed [of ?ev "[user_message (lit ''  I prefer dark mode  '')]" ?e
        host0 ?c] s
    by (simp add: toRetain_spec spec_candidates_def u trim_literals length_lit)
  from auto_retain_stores_trimmed_text [of host0 ?c ?e ?ev "lit ''  I prefer dark mode  ''"
      None None]
  show ?thesis
    by (simp add: u i stored_contents_auto_requests)
qed

section \<open>The recall tool\<close>

text \<open>
  C4, as amended. When the service answers the recall tool with no results, the tool
  reports \<open>No relevant memories found.\<close> with the detail \<open>{count: 0}\<close>. When it answers
  with \<open>n > 0\<close> results, the text is \<open>Found n memories:\<close>, an empty line, and one line
  \<open>{index}. {content} (relevance: {percent}%)\<close> for each result in the order received,
  separated by empty lines, where \<open>percent\<close> is \<open>(score * 100).toFixed(0)\<close>: the product
  is rounded to a double, and that double to the nearest integer. When every score lies
  between 0 and 1 and its exact product with 100 is farther than \<open>2^-47\<close> from the
  midpoint between two integers, \<open>percent\<close> is \<open>round(score * 100)\<close>.
\<close>

theorem recall_tool_rendering:
  "answer (fetch_recall e (length (sent h))
            (recall_request c q (case mt of None \<Rightarrow> Fin False 2000 | Some n \<Rightarrow> n) None)) =
     Some v \<longrightarrow>
     (results v = None \<or> results v = Some [] \<longrightarrow>
        fst (recall_execute c e h q mt) =
          Inr (text_result (lit ''No relevant memories found.'')
                 (JObj [(lit ''count'', JNum (Fin False 0))]))) \<and>
     (results v = Some rs \<and> rs \<noteq> [] \<longrightarrow>
        result_texts (fst (recall_execute c e h q mt)) =
          Some [lit ''Found '' @ digits (length rs) @ lit '' memories:\<newline>\<newline>'' @
                join (lit ''\<newline>\<newline>'')
                  (map (\<lambda>i. digits (i + 1) @ lit ''. '' @ content (rs ! i) @
                             lit '' (relevance: '' @
                             toFixed0 (number_to_string e)
                               (num_mul (score (rs ! i)) (Fin False 100)) @
                             lit ''%)'')
                     [0..<length rs])]) \<and>
     (results v = Some rs \<and> rs \<noteq> [] \<and>
      (\<forall>r\<in>set rs. unit_score (score r) \<and> \<not> near_tie (value_of (score r) * 100)) \<longrightarrow>
        result_texts (fst (recall_execute c e h q mt)) =
          Some [lit ''Found '' @ digits (length rs) @ lit '' memories:\<newline>\<newline>'' @
                join (lit ''\<newline>\<newline>'')
                  (map (\<lambda>i. spec_line (i + 1) (rs ! i)) [0..<length rs])])"
proof -
  let ?line = "\<lambda>i. digits (i + 1) @ lit ''. '' @ content (rs ! i) @ lit '' (relevance: '' @
                 toFixed0 (number_to_string e) (num_mul (score (rs ! i)) (Fin False 100)) @
                 lit ''%)''"
  have "map ?line [0..<length rs] = map (\<lambda>i. spec_line (i + 1) (rs ! i)) [0..<length rs]"
    if "\<forall>r\<in>set rs. unit_score (score r) \<and> \<not> near_tie (value_of (score r) * 100)"
    using that by (simp add: spec_line_def percent_exact)
  with recall_tool_empty [of e h c q mt v] recall_tool_texts [of e h c q mt v rs]
  show ?thesis
    by (metis (no_types, lifting))
qed

theorem recall_tool_rendering_witness:
  "fst (recall_execute (local_client None) (env_of stored (found [])) host0
          (lit ''dark mode'') None) =
     Inr (text_result (lit ''No relevant memories found.'')
            (JObj [(lit ''count'', JNum (Fin False 0))])) \<and>
   list_all (\<lambda>r. unit_score (score r) \<and> \<not> near_tie (value_of (score r) * 100))
     [memory ''User prefers dark mode'' (9/10),
      memory ''Dark mode was set on the dashboard'' (6/10),
      memory ''User prefers dark mode'' (873/1000)] \<and>
   result_texts
     (fst (recall_execute (local_client None)
             (env_of stored
                (found [memory ''User prefers dark mode'' (9/10),
                        memory ''Dark mode was set on the dashboard'' (6/10)]))
             host0 (lit ''dark mode'') None)) =
     Some [lit ''Found 2 memories:\<newline>\<newline>1. User prefers dark mode (relevance: 90%)\<newline>\<newline>2. Dark mode was set on the dashboard (relevance: 60%)''] \<and>
   result_texts
     (fst (recall_execute (local_client None)
             (env_of stored (found [memory ''User prefers dark mode'' (873/1000)]))
             host0 (lit ''dark mode'') None)) =
     Some [lit ''Found 1 memories:\<newline>\<newline>1. User prefers dark mode (relevance: 87%)'']"
proof -
  let ?c = "local_client None"
  let ?rs = "[memory ''User prefers dark mode'' (9/10),
              memory ''Dark mode was set on the dashboard'' (6/10)]"
  let ?r = "memory ''User prefers dark mode'' (873/1000)"
  have m: "content (memory s sc) = lit s" "score (memory s sc) = number_of_rat sc" for s sc
    by (simp_all add: memory_def)
  have u: "[0..<2] = [0, 1]"
    by (simp add: upt_rec)
  have d: "digits (Suc 0) = lit ''1''" "digits (Suc (Suc 0)) = lit ''2''"
    using digits_1 digits_2 by (simp_all add: numeral_2_eq_2)
  have l1: "spec_line (Suc 0) (memory ''User prefers dark mode'' (9/10)) =
              lit ''1. User prefers dark mode (relevance: 90%)''"
    by (simp add: spec_line_def m d spec_percents lit_append [symmetric])
  have l2: "spec_line (Suc (Suc 0)) (memory ''Dark mode was set on the dashboard'' (3/5)) =
              lit ''2. Dark mode was set on the dashboard (relevance: 60%)''"
    by (simp add: spec_line_def m d spec_percents lit_append [symmetric])
  have l3: "spec_line (Suc 0) ?r = lit ''1. User prefers dark mode (relevance: 87%)''"
    by (simp add: spec_line_def m d spec_percents lit_append [symmetric])
  have 0: "fst (recall_execute ?c (env_of stored (found [])) host0 (lit ''dark mode'') None) =
             Inr (text_result (lit ''No relevant memories found.'')
                    (JObj [(lit ''count'', JNum (Fin False 0))]))"
    using recall_tool_rendering [of "env_of stored (found [])" host0 ?c "lit ''dark mode''"
        None "\<lparr>results = Some []\<rparr>" "[]"]
    by (simp add: found_answer)
  have 1: "list_all (\<lambda>r. unit_score (score r) \<and> \<not> near_tie (value_of (score r) * 100))
             (?rs @ [?r])"
    using unit_scores by (simp add: m)
  have "results \<lparr>results = Some ?rs\<rparr> = Some ?rs \<and> ?rs \<noteq> [] \<and>
        (\<forall>r\<in>set ?rs. unit_score (score r) \<and> \<not> near_tie (value_of (score r) * 100))"
    using 1 by (simp add: list_all_iff)
  with recall_tool_rendering [of "env_of stored (found ?rs)" host0 ?c "lit ''dark mode''"
      None "\<lparr>results = Some ?rs\<rparr>" ?rs] found_answer [of stored ?rs]
  have "result_texts
          (fst (recall_execute ?c (env_of stored (found ?rs)) host0 (lit ''dark mode'') None)) =
        Some [lit ''Found '' @ digits (length ?rs) @ lit '' memories:\<newline>\<newline>'' @
              join (lit ''\<newline>\<newline>'') (map (\<lambda>i. spec_line (i + 1) (?rs ! i)) [0..<length ?rs])]"
    by blast
  then have 2: "result_texts
          (fst (recall_execute ?c (env_of stored (found ?rs)) host0 (lit ''dark mode'') None)) =
           Some [lit ''Found 2 memories:\<newline>\<newline>1. User prefers dark mode (relevance: 90%)\<newline>\<newline>2. Dark mode was set on the dashboard (relevance: 60%)'']"
    by (simp add: u d l1 l2 lit_append [symmetric])
  have "results \<lparr>results = Some [?r]\<rparr> = Some [?r] \<and> [?r] \<noteq> [] \<and>
        (\<forall>r\<in>set [?r]. unit_score (score r) \<and> \<not> near_tie (value_of (score r) * 100))"
    using 1 by (simp add: list_all_iff)
  with recall_tool_rendering [of "env_of stored (found [?r])" host0 ?c "lit ''dark mode''"
      None "\<lparr>results = Some [?r]\<rparr>" "[?r]"] found_answer [of stored "[?r]"]
  have "result_texts
          (fst (recall_execute ?c (env_of stored (found [?r])) host0 (lit ''dark mode'') None)) =
        Some [lit ''Found '' @ digits (length [?r]) @ lit '' memories:\<newline>\<newline>'' @
              join (lit ''\<newline>\<newline>'') (map (\<lambda>i. spec_line (i + 1) ([?r] ! i)) [0..<length [?r]])]"
    by blast
  then have 3: "result_texts
          (fst (recall_execute ?c (env_of stored (found [?r])) host0 (lit ''dark mode'') None)) =
           Some [lit ''Found 1 memories:\<newline>\<newline>1. User prefers dark mode (relevance: 87%)'']"
    by (simp add: d l3 lit_append [symmetric])
  from 0 1 2 3 show ?thesis
    by simp
qed

text \<open>
  C4 as stated fails at the score 0.045, which lies between 0 and 1. The nearest double is
  below 0.045, so that \<open>round(score * 100)\<close> is 4; its machine product with 100 is the
  double 4.5, and the tool prints 5. Reading the score as the decimal number does not
  help: at 0.285 the exact product is 28.5, of which \<open>round\<close> is 29, while the machine
  product is below 28.5 and the tool prints 28. Nor does reading the product as the
  machine product, outside the range of the data model: at -0.025 the tool prints -3,
  and \<open>round\<close> of the machine product is -2.
\<close>

theorem rendered_percentage_counterexample:
  "unit_score (score (memory ''User prefers dark mode'' (45/1000))) \<and>
   result_texts
     (fst (recall_execute (local_client None)
             (env_of stored (found [memory ''User prefers dark mode'' (45/1000)]))
             host0 (lit ''dark mode'') None)) =
     Some [lit ''Found 1 memories:\<newline>\<newline>1. User prefers dark mode (relevance: 5%)''] \<and>
   spec_line 1 (memory ''User prefers dark mode'' (45/1000)) =
     lit ''1. User prefers dark mode (relevance: 4%)'' \<and>
   result_texts
     (fst (recall_execute (local_client None)
             (env_of stored (found [memory ''User prefers dark mode'' (285/1000)]))
             host0 (lit ''dark mode'') None)) =
     Some [lit ''Found 1 memories:\<newline>\<newline>1. User prefers dark mode (relevance: 28%)''] \<and>
   round ((285/1000 :: rat) * 100) = 29 \<and>
   result_texts
     (fst (recall_execute (local_client None)
             (env_of stored (found [memory ''User prefers dark mode'' (- 25/1000)]))
             host0 (lit ''dark mode'') None)) =
     Some [lit ''Found 1 memories:\<newline>\<newline>1. User prefers dark mode (relevance: -3%)''] \<and>
   round (value_of (num_mul (number_of_rat (- 25/1000)) (Fin False 100))) = - 2"
proof -
  let ?c = "local_client None"
  have m: "content (memory s sc) = lit s" "score (memory s sc) = number_of_rat sc" for s sc
    by (simp_all add: memory_def)
  have d: "digits (Suc 0) = lit ''1''"
    using digits_1 by simp
  have n: "number_to_string (env_of a b) = (\<lambda>x. [])" for a b
    by (simp add: env_of_def)
  have t: "result_texts
             (fst (recall_execute ?c (env_of stored (found [memory s sc])) host0
                     (lit ''dark mode'') None)) =
           Some [lit ''Found 1 memories:\<newline>\<newline>1. '' @ lit s @ lit '' (relevance: '' @
                 toFixed0 (\<lambda>x. []) (num_mul (number_of_rat sc) (Fin False 100)) @ lit ''%)'']"
    for s sc
    using recall_tool_texts [of "env_of stored (found [memory s sc])" host0 ?c
        "lit ''dark mode''" None "\<lparr>results = Some [memory s sc]\<rparr>" "[memory s sc]"]
    by (simp add: found_answer m d n lit_append [symmetric])
  have "spec_line 1 (memory ''User prefers dark mode'' (45/1000)) =
          lit ''1. User prefers dark mode (relevance: 4%)''"
    by (simp add: spec_line_def m d percent_045 spec_percents lit_append [symmetric])
  then show ?thesis
    by (simp add: t m percent_045 percent_285 percent_negative lit_append [symmetric])
qed

end
